theory Spec2Isabelle
  imports Complex_Main
begin

section \<open>Data model\<close>

text \<open>
  A numpy 2D array is a list of rows. Samples are floating point in the program; they are
  modelled as real numbers, so rounding, infinities and NaN are outside the model. A
  boolean array is a \<open>bool grid\<close>, a \<open>uint8\<close> mask (only ever written with 0 and 1) a
  \<open>nat grid\<close>.
\<close>

type_synonym 'a grid = "'a list list"

definition shape :: "'a grid \<Rightarrow> nat \<times> nat" where
  "shape g = (length g, case g of [] \<Rightarrow> 0 | r # _ \<Rightarrow> length r)"

definition rect :: "'a grid \<Rightarrow> bool" where
  \<comment> \<open>every row has the width that \<open>shape\<close> reports: the array is rectangular\<close>
  "rect g = list_all (\<lambda>r. length r = snd (shape g)) g"

definition gmap :: "('a \<Rightarrow> 'b) \<Rightarrow> 'a grid \<Rightarrow> 'b grid" where
  \<comment> \<open>an elementwise numpy operation on one array\<close>
  "gmap f g = map (map f) g"

definition gmap2 :: "('a \<Rightarrow> 'b \<Rightarrow> 'c) \<Rightarrow> 'a grid \<Rightarrow> 'b grid \<Rightarrow> 'c grid" where
  \<comment> \<open>an elementwise numpy operation on two arrays of one shape\<close>
  "gmap2 f a b = map2 (map2 f) a b"

definition tabulate :: "nat \<Rightarrow> nat \<Rightarrow> (nat \<Rightarrow> nat \<Rightarrow> 'a) \<Rightarrow> 'a grid" where
  "tabulate h w f = map (\<lambda>i. map (\<lambda>j. f i j) [0..<w]) [0..<h]"

definition cells :: "nat \<Rightarrow> nat \<Rightarrow> (nat \<times> nat) list" where
  \<comment> \<open>the coordinates of an array in row-major order\<close>
  "cells h w = concat (map (\<lambda>i. map (\<lambda>j. (i, j)) [0..<w]) [0..<h])"

definition select :: "'a grid \<Rightarrow> bool grid \<Rightarrow> 'a list" where
  \<comment> \<open>boolean-mask indexing \<open>g[m]\<close>: the selected values in row-major order\<close>
  "select g m = map fst (filter snd (zip (concat g) (concat m)))"

definition positive :: "real grid \<Rightarrow> real list" where
  \<comment> \<open>\<open>g[g > 0]\<close>\<close>
  "positive g = filter (\<lambda>x. 0 < x) (concat g)"

datatype error =
    ShapeMismatch      \<comment> \<open>\<open>ValueError("Input rasters must have identical dimensions.")\<close>\<close>
  | EmptyPopulation    \<comment> \<open>the \<open>IndexError\<close> of \<open>np.percentile\<close> on an array of size 0\<close>
  | PercentileRange    \<comment> \<open>the \<open>ValueError\<close> of \<open>np.percentile\<close> for q outside [0, 100]\<close>
  | TooFewSamples      \<comment> \<open>the \<open>ValueError\<close> of \<open>PCA(n_components=4)\<close> on fewer than 4 samples\<close>

subsection \<open>Parameters of \<open>change_detection_S1.py\<close>\<close>

definition MIN_AREA :: nat where "MIN_AREA = 10"
definition EPS :: real where "EPS = 1 / 10 ^ 9"
definition PERCENTILE_OBJ :: real where "PERCENTILE_OBJ = 95"
definition PERCENTILE_PIX :: real where "PERCENTILE_PIX = 90"
definition PERCENTILE_WATER :: real where "PERCENTILE_WATER = 98"
definition MIN_BACKSCATTER_DB :: real where "MIN_BACKSCATTER_DB = - 20"

section \<open>Threshold engine: \<open>np.percentile\<close>\<close>

text \<open>
  \<open>np.percentile(a, q)\<close> with the default linear interpolation: the flattened population is
  sorted, the virtual index is \<open>(n - 1) * q / 100\<close>, and the result interpolates between the
  two neighbouring order statistics. On a population of size 0 numpy raises \<open>IndexError\<close>; no
  value (and no NaN) is returned.
\<close>

definition percentile :: "real list \<Rightarrow> real \<Rightarrow> error + real" where
  "percentile a q =
     (if q < 0 \<or> 100 < q then Inl PercentileRange
      else if a = [] then Inl EmptyPopulation
      else let s = sort a;
               n = length a;
               h = real (n - 1) * (q / 100);
               lo = nat \<lfloor>h\<rfloor>;
               hi = min (lo + 1) (n - 1)
           in Inr (s ! lo + (s ! hi - s ! lo) * (h - real lo)))"

section \<open>Stratifier\<close>

definition water_mask_of :: "real grid \<Rightarrow> real grid \<Rightarrow> bool grid" where
  \<comment> \<open>\<open>(db1 < MIN_BACKSCATTER_DB) & (db2 < MIN_BACKSCATTER_DB)\<close>\<close>
  "water_mask_of db1 db2 =
     gmap2 (\<and>) (gmap (\<lambda>x. x < MIN_BACKSCATTER_DB) db1) (gmap (\<lambda>x. x < MIN_BACKSCATTER_DB) db2)"

definition land_mask_of :: "real grid \<Rightarrow> real grid \<Rightarrow> bool grid" where
  \<comment> \<open>\<open>~water_mask\<close>\<close>
  "land_mask_of db1 db2 = gmap Not (water_mask_of db1 db2)"

section \<open>Grid normaliser\<close>

definition to_db :: "real grid \<Rightarrow> real grid" where
  \<comment> \<open>\<open>10 * np.log10(np.clip(img, EPS, None))\<close>\<close>
  "to_db img = gmap (\<lambda>x. 10 * log 10 (max x EPS)) img"

definition square :: "(int \<times> int) list" where
  \<comment> \<open>the offsets of \<open>generate_binary_structure(2, 2)\<close>, the full 3x3 neighbourhood\<close>
  "square = [(- 1, - 1), (- 1, 0), (- 1, 1), (0, - 1), (0, 0), (0, 1), (1, - 1), (1, 0), (1, 1)]"

definition cross :: "(int \<times> int) list" where
  \<comment> \<open>the offsets of \<open>generate_binary_structure(2, 1)\<close>, scipy's default structure\<close>
  "cross = [(- 1, 0), (0, - 1), (0, 0), (0, 1), (1, 0)]"

definition reflect_idx :: "nat \<Rightarrow> int \<Rightarrow> nat" where
  \<comment> \<open>scipy's boundary mode \<open>reflect\<close> (d c b a | a b c d | d c b a) for an offset of one\<close>
  "reflect_idx n k = (if k < 0 then nat (- k - 1) else if int n \<le> k then nat (2 * int n - 1 - k) else nat k)"

definition despeckle :: "real grid \<Rightarrow> real grid" where
  \<comment> \<open>\<open>uniform_filter(img, size=3)\<close>: the mean of the 3x3 window, reflected at the border\<close>
  "despeckle img =
     (let h = fst (shape img); w = snd (shape img)
      in tabulate h w (\<lambda>i j.
           sum_list (map (\<lambda>(di, dj). img ! reflect_idx h (int i + di) ! reflect_idx w (int j + dj)) square) / 9))"

section \<open>Binary morphology (\<open>scipy.ndimage\<close>)\<close>

text \<open>
  Erosion and dilation read cells outside the array as \<open>border_value = 0\<close>, the default of
  \<open>binary_erosion\<close>, \<open>binary_dilation\<close>, \<open>binary_opening\<close> and \<open>binary_closing\<close>; the
  program never passes another value.
\<close>

definition cell_at :: "bool grid \<Rightarrow> int \<Rightarrow> int \<Rightarrow> bool" where
  "cell_at m i j = (0 \<le> i \<and> i < int (fst (shape m)) \<and> 0 \<le> j \<and> j < int (snd (shape m))
               \<and> m ! nat i ! nat j)"

definition binary_erosion :: "(int \<times> int) list \<Rightarrow> bool grid \<Rightarrow> bool grid" where
  "binary_erosion st m =
     tabulate (fst (shape m)) (snd (shape m))
       (\<lambda>i j. list_all (\<lambda>(di, dj). cell_at m (int i + di) (int j + dj)) st)"

definition binary_dilation :: "(int \<times> int) list \<Rightarrow> bool grid \<Rightarrow> bool grid" where
  "binary_dilation st m =
     tabulate (fst (shape m)) (snd (shape m))
       (\<lambda>i j. list_ex (\<lambda>(di, dj). cell_at m (int i - di) (int j - dj)) st)"

definition binary_opening :: "(int \<times> int) list \<Rightarrow> nat \<Rightarrow> bool grid \<Rightarrow> bool grid" where
  \<comment> \<open>\<open>iterations\<close> erosions, then as many dilations\<close>
  "binary_opening st n m = (binary_dilation st ^^ n) ((binary_erosion st ^^ n) m)"

definition binary_closing :: "(int \<times> int) list \<Rightarrow> nat \<Rightarrow> bool grid \<Rightarrow> bool grid" where
  \<comment> \<open>\<open>iterations\<close> dilations, then as many erosions\<close>
  "binary_closing st n m = (binary_erosion st ^^ n) ((binary_dilation st ^^ n) m)"

section \<open>Connected components (\<open>skimage.measure\<close>)\<close>

text \<open>
  \<open>label\<close> numbers the 8-connected components of the foreground (the default connectivity of
  a 2D image) from 1, in row-major order of their first cell; the background is 0.
  \<open>regionprops\<close> yields the regions by ascending label, each with its coordinates in
  row-major order; the area of a region is the number of its coordinates.
\<close>

definition adjacent8 :: "nat \<times> nat \<Rightarrow> nat \<times> nat \<Rightarrow> bool" where
  "adjacent8 p q = (\<bar>int (fst p) - int (fst q)\<bar> \<le> 1 \<and> \<bar>int (snd p) - int (snd q)\<bar> \<le> 1)"

definition foreground :: "bool grid \<Rightarrow> (nat \<times> nat) set" where
  \<comment> \<open>the cells of the array that are set\<close>
  "foreground m = set (filter (\<lambda>q. m ! fst q ! snd q) (cells (fst (shape m)) (snd (shape m))))"

definition grow :: "bool grid \<Rightarrow> (nat \<times> nat) list \<Rightarrow> (nat \<times> nat) list" where
  \<comment> \<open>the foreground cells that touch the cells found so far\<close>
  "grow m s = filter (\<lambda>q. m ! fst q ! snd q \<and> list_ex (adjacent8 q) s)
                     (cells (fst (shape m)) (snd (shape m)))"

definition component :: "bool grid \<Rightarrow> nat \<times> nat \<Rightarrow> (nat \<times> nat) list" where
  "component m p = (grow m ^^ (fst (shape m) * snd (shape m))) [p]"

definition set_cells :: "(nat \<times> nat) list \<Rightarrow> 'a \<Rightarrow> 'a grid \<Rightarrow> 'a grid" where
  \<comment> \<open>the fancy-index assignment \<open>g[rows, cols] = v\<close>\<close>
  "set_cells cs v g = foldl (\<lambda>g' (i, j). g'[i := (g' ! i)[j := v]]) g cs"

definition zeros_like :: "'a grid \<Rightarrow> nat grid" where
  \<comment> \<open>\<open>np.zeros_like(g, dtype=np.uint8)\<close>\<close>
  "zeros_like g = gmap (\<lambda>_. 0) g"

fun label_from :: "bool grid \<Rightarrow> (nat \<times> nat) list \<Rightarrow> nat \<Rightarrow> nat grid \<Rightarrow> nat grid" where
  "label_from m [] k l = l"
| "label_from m (p # ps) k l =
     (if m ! fst p ! snd p \<and> l ! fst p ! snd p = 0
      then label_from m ps (Suc k) (set_cells (component m p) (Suc k) l)
      else label_from m ps k l)"

definition label :: "bool grid \<Rightarrow> nat grid" where
  "label m = label_from m (cells (fst (shape m)) (snd (shape m))) 0 (zeros_like m)"

definition nonzero :: "nat grid \<Rightarrow> bool grid" where
  \<comment> \<open>a \<open>uint8\<close> mask read as booleans\<close>
  "nonzero g = gmap (\<lambda>v. v \<noteq> 0) g"

definition regionprops :: "nat grid \<Rightarrow> (nat \<times> nat) list list" where
  "regionprops l =
     filter (\<lambda>cs. cs \<noteq> [])
       (map (\<lambda>k. filter (\<lambda>(i, j). l ! i ! j = k) (cells (fst (shape l)) (snd (shape l))))
            [1..<Suc (fold max (concat l) 0)])"

section \<open>Morphological cleaner\<close>

definition flag_regions ::
  "((nat \<times> nat) list \<Rightarrow> bool) \<Rightarrow> (nat \<times> nat) list list \<Rightarrow> nat grid \<Rightarrow> nat grid" where
  \<comment> \<open>\<open>for reg in regions: if test(reg): out[reg.coords] = 1\<close>\<close>
  "flag_regions test regs out = foldl (\<lambda>c reg. if test reg then set_cells reg 1 c else c) out regs"

definition clean_mask :: "bool grid \<Rightarrow> nat \<Rightarrow> nat grid" where
  "clean_mask m min_area =
     (let opened = binary_opening square 1 m;
          closed = binary_closing square 1 opened;
          labeled = label closed
      in flag_regions (\<lambda>reg. min_area \<le> length reg) (regionprops labeled) (zeros_like closed))"

section \<open>Radar path: land and water change detection\<close>

definition no_overlap :: "nat grid \<Rightarrow> (nat \<times> nat) list \<Rightarrow> bool" where
  \<comment> \<open>\<open>np.all(other[coords[:,0], coords[:,1]] == 0)\<close>\<close>
  "no_overlap other coords = list_all (\<lambda>(i, j). other ! i ! j = 0) coords"

definition appearance :: "nat grid \<Rightarrow> nat grid \<Rightarrow> nat grid \<Rightarrow> nat grid" where
  \<comment> \<open>the two loops over \<open>regionprops(labeled2)\<close> and \<open>regionprops(labeled1)\<close>\<close>
  "appearance labeled1 labeled2 change =
     flag_regions (no_overlap labeled2) (regionprops labeled1)
       (flag_regions (no_overlap labeled1) (regionprops labeled2) change)"

definition region_mean :: "real grid \<Rightarrow> (nat \<times> nat) list \<Rightarrow> real" where
  "region_mean g coords = sum_list (map (\<lambda>(i, j). g ! i ! j) coords) / real (length coords)"

definition intensity_shift ::
  "real grid \<Rightarrow> real grid \<Rightarrow> real \<Rightarrow> nat grid \<Rightarrow> nat grid \<Rightarrow> nat grid" where
  "intensity_shift db1 db2 thr_intensity labeled1 change =
     flag_regions (\<lambda>coords. thr_intensity \<le> \<bar>region_mean db2 coords - region_mean db1 coords\<bar>)
       (regionprops labeled1) change"

definition change_land_obj_of :: "real grid \<Rightarrow> real grid \<Rightarrow> bool grid \<Rightarrow> error + nat grid" where
  "change_land_obj_of db1 db2 land_mask =
     (let abs_diff = gmap2 (\<lambda>d l. d * of_bool l) (gmap2 (\<lambda>y x. \<bar>y - x\<bar>) db2 db1) land_mask
      in case percentile (select db1 land_mask) PERCENTILE_OBJ of
           Inl err \<Rightarrow> Inl err
         | Inr thr1 \<Rightarrow>
        (case percentile (select db2 land_mask) PERCENTILE_OBJ of
           Inl err \<Rightarrow> Inl err
         | Inr thr2 \<Rightarrow>
        (let mask1 = clean_mask (gmap (\<lambda>x. thr1 \<le> x) db1) MIN_AREA;
             mask2 = clean_mask (gmap (\<lambda>x. thr2 \<le> x) db2) MIN_AREA;
             labeled1 = label (nonzero mask1);
             labeled2 = label (nonzero mask2);
             change = appearance labeled1 labeled2 (zeros_like db1)
         in case percentile (select abs_diff land_mask) PERCENTILE_OBJ of
              Inl err \<Rightarrow> Inl err
            | Inr thr_intensity \<Rightarrow>
                Inr (clean_mask (nonzero (intensity_shift db1 db2 thr_intensity labeled1 change))
                       MIN_AREA))))"

definition brightening :: "real grid \<Rightarrow> real grid \<Rightarrow> bool grid \<Rightarrow> real grid" where
  \<comment> \<open>\<open>(db2 - db1).clip(min=0) * zone\<close>\<close>
  "brightening db1 db2 zone = gmap2 (\<lambda>d z. max d 0 * of_bool z) (gmap2 (-) db2 db1) zone"

definition change_detection :: "real grid \<Rightarrow> real grid \<Rightarrow> error + nat grid" where
  \<comment> \<open>the main workflow of \<open>change_detection_S1.py\<close> from the shape check to \<open>final_mask\<close>\<close>
  "change_detection img1 img2 =
     (if shape img1 \<noteq> shape img2 then Inl ShapeMismatch
      else
        let db1 = despeckle (to_db img1);
            db2 = despeckle (to_db img2);
            water_mask = water_mask_of db1 db2;
            land_mask = land_mask_of db1 db2
        in case change_land_obj_of db1 db2 land_mask of
             Inl err \<Rightarrow> Inl err
           | Inr change_land_obj \<Rightarrow>
          (let bright_diff = brightening db1 db2 land_mask
           in case percentile (positive bright_diff) PERCENTILE_PIX of
                Inl err \<Rightarrow> Inl err
              | Inr thr_pix \<Rightarrow>
             (let change_land_pix = gmap (\<lambda>x. thr_pix \<le> x) bright_diff;
                  change_land = gmap2 (\<or>) (nonzero change_land_obj) change_land_pix;
                  bright_water = brightening db1 db2 water_mask
              in case percentile (positive bright_water) PERCENTILE_WATER of
                   Inl err \<Rightarrow> Inl err
                 | Inr thr_water \<Rightarrow>
                     (let change_water = clean_mask (gmap (\<lambda>x. thr_water \<le> x) bright_water) MIN_AREA
                      in Inr (gmap2 (\<lambda>l w. of_bool (l \<or> w)) change_land (nonzero change_water))))))"

section \<open>Mask vectoriser and the written files\<close>

text \<open>
  The affine geotransform of a raster profile; \<open>transform[0]\<close> is the x scale and
  \<open>transform[4]\<close> the y scale. A polygon is a list of rings, the exterior first; its area is
  the area of the exterior minus the areas of the holes, each by the shoelace formula.
  \<open>rasterio.features.shapes\<close>, the tracer, is a parameter of the vectoriser: it maps the
  image, the mask and the transform to pairs of a geometry and a pixel value.
\<close>

record affine =
  x_scale :: real
  x_shear :: real
  x_origin :: real
  y_shear :: real
  y_scale :: real
  y_origin :: real

record profile =
  transform :: affine
  crs :: string

type_synonym ring = "(real \<times> real) list"
type_synonym polygon = "ring list"
type_synonym tracer = "nat grid \<Rightarrow> bool grid \<Rightarrow> affine \<Rightarrow> (polygon \<times> real) list"

fun shoelace :: "ring \<Rightarrow> real" where
  "shoelace (p # q # ps) = fst p * snd q - fst q * snd p + shoelace (q # ps)"
| "shoelace ps = 0"

definition ring_area :: "ring \<Rightarrow> real" where
  "ring_area r = \<bar>shoelace r\<bar> / 2"

definition poly_area :: "polygon \<Rightarrow> real" where
  "poly_area poly = (case poly of [] \<Rightarrow> 0
                     | ext # holes \<Rightarrow> ring_area ext - sum_list (map ring_area holes))"

datatype payload =
    GeoJSON string "polygon list"   \<comment> \<open>coordinate reference and features\<close>
  | GTiff "nat grid"
  | PNG

record world =
  files :: "string \<rightharpoonup> payload"
  stdout :: "string list"

definition kept_polygons :: "tracer \<Rightarrow> nat grid \<Rightarrow> profile \<Rightarrow> nat \<Rightarrow> polygon list" where
  \<comment> \<open>the two list comprehensions shared by \<open>mask_to_geojson\<close> and \<open>mask_to_geojson_georef\<close>\<close>
  "kept_polygons shapes m prof min_area =
     (let shp_gen = shapes m (nonzero m) (transform prof);
          polygons = map fst (filter (\<lambda>(geom, val). val = 1) shp_gen);
          pixel_area = \<bar>x_scale (transform prof) * y_scale (transform prof)\<bar>
      in filter (\<lambda>poly. real min_area * pixel_area \<le> poly_area poly) polygons)"

definition mask_to_geojson :: "tracer \<Rightarrow> nat grid \<Rightarrow> profile \<Rightarrow> string \<Rightarrow> nat \<Rightarrow> world \<Rightarrow> world" where
  "mask_to_geojson shapes m prof out_path min_area w =
     (let polygons = kept_polygons shapes m prof min_area
      in if polygons = [] then w\<lparr>stdout := stdout w @ [''No change polygons detected.'']\<rparr>
         else w\<lparr>files := (files w)(out_path \<mapsto> GeoJSON (crs prof) polygons),
                stdout := stdout w @ [''GeoJSON saved: '' @ out_path]\<rparr>)"

definition mask_to_geojson_georef ::
  "tracer \<Rightarrow> nat grid \<Rightarrow> profile \<Rightarrow> string \<Rightarrow> nat \<Rightarrow> world \<Rightarrow> world" where
  "mask_to_geojson_georef shapes m prof out_path min_area w =
     (let polygons = kept_polygons shapes m prof min_area
      in if length polygons = 0 then w\<lparr>stdout := stdout w @ [''No changes detected for GeoJSON.'']\<rparr>
         else w\<lparr>files := (files w)(out_path \<mapsto> GeoJSON (crs prof) polygons),
                stdout := stdout w @ [''Saved georeferenced GeoJSON: '' @ out_path]\<rparr>)"

definition save_mask :: "string \<Rightarrow> nat grid \<Rightarrow> world \<Rightarrow> world" where
  \<comment> \<open>\<open>save_mask\<close> and \<open>save_mask_georef\<close>: one band of \<open>uint8\<close>\<close>
  "save_mask path m w = w\<lparr>files := (files w)(path \<mapsto> GTiff m)\<rparr>"

definition savefig :: "string \<Rightarrow> world \<Rightarrow> world" where
  "savefig path w = w\<lparr>files := (files w)(path \<mapsto> PNG)\<rparr>"

definition main_S1 :: "tracer \<Rightarrow> string \<Rightarrow> real grid \<Rightarrow> real grid \<Rightarrow> profile \<Rightarrow> world
                        \<Rightarrow> (error + unit) \<times> world" where
  \<comment> \<open>the script \<open>change_detection_S1.py\<close> from the shape check on, for the two rasters
      read from \<open>PATH_T1\<close> and \<open>PATH_T2\<close>; \<open>prof2\<close> is the profile of the second. The
      world holds the files written and the lines printed; the output folder itself is made
      by \<open>os.makedirs\<close> when the script starts, before the rasters are read.\<close>
  "main_S1 shapes out_folder img1 img2 prof2 w =
     (case change_detection img1 img2 of
        Inl err \<Rightarrow> (Inl err, w)
      | Inr final_mask \<Rightarrow>
          (let w1 = savefig (out_folder @ ''/change_visualization.png'') w;
               w2 = save_mask (out_folder @ ''/change_mask.tif'') final_mask w1;
               w3 = mask_to_geojson shapes final_mask prof2
                      (out_folder @ ''/change_polygons.geojson'') MIN_AREA w2
           in (Inr (), w3\<lparr>stdout := stdout w3 @ [[], ''Change detection completed successfully.'',
                                                  ''Output folder: '' @ out_folder]\<rparr>)))"

section \<open>Optical path: spectral change scorer\<close>

text \<open>
  An image stack is the list of its bands. \<open>PCA(n_components=4).fit_transform\<close> centres the
  pixel vectors and projects them on the principal axes; the first column is the projection
  on the first axis. The axis is the unit vector that the decomposition finds, determined up
  to sign; here it is a parameter, so that what is proved holds for whichever axis the
  library returns. With fewer samples than components the library raises \<open>ValueError\<close>.
\<close>

definition MIN_SHIP_AREA :: nat where "MIN_SHIP_AREA = 3"
definition MAX_SHIP_AREA :: nat where "MAX_SHIP_AREA = 300"

definition diff_flat :: "real grid list \<Rightarrow> real grid list \<Rightarrow> real list list" where
  \<comment> \<open>\<open>(post - pre).reshape(4, -1).T\<close>: one row of band differences for each pixel\<close>
  "diff_flat post pre =
     (let diff = map2 (gmap2 (-)) post pre;
          n = fst (shape (hd pre)) * snd (shape (hd pre))
      in map (\<lambda>k. map (\<lambda>band. concat band ! k) diff) [0..<n])"

definition column_means :: "real list list \<Rightarrow> real list" where
  "column_means X = map (\<lambda>b. sum_list (map (\<lambda>x. x ! b) X) / real (length X)) [0..<4]"

definition pc1_scores :: "real list \<Rightarrow> real list list \<Rightarrow> real list" where
  "pc1_scores axis X =
     (let mu = column_means X
      in map (\<lambda>x. sum_list (map (\<lambda>b. (x ! b - mu ! b) * axis ! b) [0..<4])) X)"

definition fit_transform_pc1 :: "real list \<Rightarrow> real list list \<Rightarrow> error + real list" where
  "fit_transform_pc1 axis X = (if length X < 4 then Inl TooFewSamples else Inr (pc1_scores axis X))"

definition reshape :: "nat \<Rightarrow> nat \<Rightarrow> 'a list \<Rightarrow> 'a grid" where
  "reshape h w xs = tabulate h w (\<lambda>i j. xs ! (i * w + j))"

definition optical_change_mask :: "real grid \<Rightarrow> error + bool grid" where
  \<comment> \<open>\<open>pc1_abs = np.abs(pc1); thresh = np.percentile(pc1_abs, 95); pc1_abs > thresh\<close>\<close>
  "optical_change_mask pc1 =
     (let pc1_abs = gmap abs pc1
      in case percentile (concat pc1_abs) 95 of
           Inl err \<Rightarrow> Inl err
         | Inr thresh \<Rightarrow> Inr (gmap (\<lambda>x. thresh < x) pc1_abs))"

definition ship_filter :: "bool grid \<Rightarrow> nat grid" where
  \<comment> \<open>opening, closing with two iterations, and the area window on the labelled regions\<close>
  "ship_filter change_mask =
     (let opened = binary_opening cross 1 change_mask;
          closed = binary_closing cross 2 opened;
          labeled = label closed
      in flag_regions (\<lambda>reg. MIN_SHIP_AREA \<le> length reg \<and> length reg \<le> MAX_SHIP_AREA)
           (regionprops labeled) (zeros_like closed))"

definition optical_mask_of_scores :: "real grid \<Rightarrow> error + nat grid" where
  "optical_mask_of_scores pc1 =
     (case optical_change_mask pc1 of Inl err \<Rightarrow> Inl err | Inr cm \<Rightarrow> Inr (ship_filter cm))"

definition optical_final_mask :: "real list \<Rightarrow> real grid list \<Rightarrow> real grid list \<Rightarrow> error + nat grid" where
  \<comment> \<open>the workflow of \<open>change_detection_s2.py\<close> from \<open>diff\<close> to \<open>final_mask\<close>, for two stacks
      of one shape\<close>
  "optical_final_mask axis pre post =
     (case fit_transform_pc1 axis (diff_flat post pre) of
        Inl err \<Rightarrow> Inl err
      | Inr pc \<Rightarrow>
          optical_mask_of_scores (reshape (fst (shape (hd pre))) (snd (shape (hd pre))) pc))"

section \<open>Properties\<close>

lemma shape_gmap [simp]: "shape (gmap f g) = shape g"
  by (cases g) (simp_all add: shape_def gmap_def)

lemma rect_nth: "rect g \<Longrightarrow> i < length g \<Longrightarrow> length (g ! i) = snd (shape g)"
  by (simp add: rect_def list_all_length)

lemma shape_gmap2:
  "shape a = shape b \<Longrightarrow> shape (gmap2 f a b) = shape a"
  by (cases a; cases b) (simp_all add: shape_def gmap2_def)

lemma gmap_nth: "i < length g \<Longrightarrow> j < length (g ! i) \<Longrightarrow> gmap f g ! i ! j = f (g ! i ! j)"
  by (simp add: gmap_def)

lemma gmap2_nth:
  "i < length a \<Longrightarrow> i < length b \<Longrightarrow> j < length (a ! i) \<Longrightarrow> j < length (b ! i) \<Longrightarrow>
   gmap2 f a b ! i ! j = f (a ! i ! j) (b ! i ! j)"
  by (simp add: gmap2_def)

text \<open>
  C5. For two normalised grids of one shape, a cell of the Stratifier's water mask is set
  exactly when the cell is below the water threshold in both grids; the land mask is the
  complement, so every cell lies in exactly one of the two masks, and both masks have the shape
  of the inputs.
\<close>

theorem stratifier_partition:
  assumes "rect db1" and "rect db2" and "shape db1 = shape db2"
    and "i < fst (shape db1)" and "j < snd (shape db1)"
  shows "shape (water_mask_of db1 db2) = shape db1
       \<and> shape (land_mask_of db1 db2) = shape db1
       \<and> (water_mask_of db1 db2 ! i ! j
            \<longleftrightarrow> db1 ! i ! j < MIN_BACKSCATTER_DB \<and> db2 ! i ! j < MIN_BACKSCATTER_DB)
       \<and> (land_mask_of db1 db2 ! i ! j \<longleftrightarrow> \<not> water_mask_of db1 db2 ! i ! j)"
proof -
  have len: "length db1 = length db2" "i < length db1"
    using assms(3,4) by (simp_all add: shape_def)
  have w1: "length (db1 ! i) = snd (shape db1)"
    using assms(1) len by (simp add: rect_nth)
  have w2: "length (db2 ! i) = snd (shape db1)"
    using assms(2,3) len by (simp add: rect_nth)
  have s: "shape (water_mask_of db1 db2) = shape db1"
    using assms(3) by (simp add: water_mask_of_def shape_gmap2)
  have w: "water_mask_of db1 db2 ! i ! j
      \<longleftrightarrow> db1 ! i ! j < MIN_BACKSCATTER_DB \<and> db2 ! i ! j < MIN_BACKSCATTER_DB"
    using len w1 w2 assms(5)
    by (simp add: water_mask_of_def gmap2_nth gmap_nth gmap_def)
  have lw: "length (water_mask_of db1 db2) = length db1"
    using len by (simp add: water_mask_of_def gmap2_def gmap_def)
  have lwi: "length (water_mask_of db1 db2 ! i) = snd (shape db1)"
    using len w1 w2 by (simp add: water_mask_of_def gmap2_def gmap_def)
  have l: "land_mask_of db1 db2 ! i ! j \<longleftrightarrow> \<not> water_mask_of db1 db2 ! i ! j"
    using lw lwi len assms(5) by (simp add: land_mask_of_def gmap_nth)
  show ?thesis using s w l by (simp add: land_mask_of_def)
qed

theorem stratifier_partition_witness:
  "water_mask_of [[-25, -10], [-30, 0]] [[-22, -30], [-5, 1]] = [[True, False], [False, False]]
   \<and> land_mask_of [[-25, -10], [-30, 0]] [[-22, -30], [-5, 1]] = [[False, True], [True, True]]
   \<and> (water_mask_of [[-25, -10], [-30, 0]] [[-22, -30], [-5, 1]] ! 0 ! 0
        \<longleftrightarrow> ([[-25, -10], [-30, 0]] :: real grid) ! 0 ! 0 < MIN_BACKSCATTER_DB
          \<and> ([[-22, -30], [-5, 1]] :: real grid) ! 0 ! 0 < MIN_BACKSCATTER_DB)"
  using stratifier_partition [of "[[-25, -10], [-30, 0]]" "[[-22, -30], [-5, 1]]" 0 0]
  by (simp add: water_mask_of_def land_mask_of_def gmap_def gmap2_def MIN_BACKSCATTER_DB_def
      rect_def shape_def)

lemma percentile_Inl:
  "0 \<le> q \<Longrightarrow> q \<le> 100 \<Longrightarrow> percentile a q = Inl err \<Longrightarrow> err = EmptyPopulation \<and> a = []"
  by (auto simp: percentile_def Let_def split: if_splits)

lemma percentile_Nil: "0 \<le> q \<Longrightarrow> q \<le> 100 \<Longrightarrow> percentile [] q = Inl EmptyPopulation"
  by (simp add: percentile_def)

lemma positive_brightening_same: "positive (brightening db db zone) = []"
proof -
  have "\<forall>x \<in> set (concat (brightening db db zone)). x = 0"
    by (auto simp: brightening_def gmap2_def zip_same_conv_map set_zip)
  then show ?thesis
    by (auto simp: positive_def filter_empty_conv)
qed

lemma change_land_obj_error:
  "change_land_obj_of db1 db2 land = Inl err \<Longrightarrow> err = EmptyPopulation"
  by (auto simp: change_land_obj_of_def Let_def PERCENTILE_OBJ_def split: sum.splits
           dest!: percentile_Inl[rotated 2])

lemma change_land_obj_empty:
  "select db1 land = [] \<or> select db2 land = [] \<Longrightarrow>
   change_land_obj_of db1 db2 land = Inl EmptyPopulation"
  by (auto simp: change_land_obj_of_def Let_def PERCENTILE_OBJ_def percentile_Nil
           split: sum.splits dest!: percentile_Inl[rotated 2])

lemma identical_grids_fail: "change_detection g g = Inl EmptyPopulation"
proof -
  have p: "percentile (positive (brightening db db zone)) PERCENTILE_PIX = Inl EmptyPopulation"
    for db zone
    by (simp add: positive_brightening_same percentile_Nil PERCENTILE_PIX_def)
  show ?thesis
    by (auto simp: change_detection_def Let_def p split: sum.splits dest: change_land_obj_error)
qed

text \<open>
  C1 (as amended). For two identical input grids the radar pipeline produces no change mask
  and no polygon file: the brightening of a grid against itself has no strictly positive
  cell, so the percentile for the pixel-level land threshold is taken over an empty
  population and the run fails there (or earlier, at the land percentiles, when no cell is
  land). Nothing is written.
\<close>

theorem identical_grids_no_mask:
  "change_detection g g = Inl EmptyPopulation
   \<and> main_S1 shapes out_folder g g prof2 w = (Inl EmptyPopulation, w)"
  by (simp add: identical_grids_fail main_S1_def)

text \<open>
  C1 as stated fails: on the 2x2 grid of ones, compared with itself, the pipeline does not
  return the all-zero mask.
\<close>

theorem identical_grids_counterexample:
  "change_detection [[1, 1], [1, 1]] [[1, 1], [1, 1]] \<noteq> Inr [[0, 0], [0, 0]]"
  by (simp add: identical_grids_fail)

text \<open>
  C2. Whenever the population of one of the percentile thresholds of the radar pipeline is
  empty (the land cells of either grid for \<open>thr1\<close>, \<open>thr2\<close> and \<open>thr_intensity\<close>, the
  strictly positive land brightening for \<open>thr_pix\<close>, the strictly positive water
  brightening for \<open>thr_water\<close>), the pipeline fails with the empty-population error; no
  threshold value is produced.
\<close>

theorem empty_population_fails:
  assumes "shape img1 = shape img2"
    and "db1 = despeckle (to_db img1)" and "db2 = despeckle (to_db img2)"
    and "select db1 (land_mask_of db1 db2) = []
         \<or> select db2 (land_mask_of db1 db2) = []
         \<or> positive (brightening db1 db2 (land_mask_of db1 db2)) = []
         \<or> positive (brightening db1 db2 (water_mask_of db1 db2)) = []"
  shows "change_detection img1 img2 = Inl EmptyPopulation"
proof -
  have pix: "percentile [] PERCENTILE_PIX = Inl EmptyPopulation"
    by (simp add: percentile_Nil PERCENTILE_PIX_def)
  have wat: "percentile [] PERCENTILE_WATER = Inl EmptyPopulation"
    by (simp add: percentile_Nil PERCENTILE_WATER_def)
  have pixE: "percentile a PERCENTILE_PIX = Inl err \<Longrightarrow> err = EmptyPopulation" for a err
    using percentile_Inl[of PERCENTILE_PIX a err] by (simp add: PERCENTILE_PIX_def)
  have watE: "percentile a PERCENTILE_WATER = Inl err \<Longrightarrow> err = EmptyPopulation" for a err
    using percentile_Inl[of PERCENTILE_WATER a err] by (simp add: PERCENTILE_WATER_def)
  from assms(4) show ?thesis
    unfolding change_detection_def Let_def assms(2)[symmetric] assms(3)[symmetric]
    using assms(1)
    by (auto simp: pix wat change_land_obj_empty split: sum.splits
             dest: change_land_obj_error pixE watE)
qed

lemma to_db_ones: "to_db [[1, 1], [1, 1]] = [[0, 0], [0, 0]]"
  by (simp add: to_db_def gmap_def EPS_def)

lemma despeckle_zeros: "despeckle [[0, 0], [0, 0]] = [[0, 0], [0, 0]]"
  by (simp add: despeckle_def shape_def tabulate_def square_def reflect_idx_def upt_rec)

theorem empty_population_fails_witness:
  "positive (brightening (despeckle (to_db [[1, 1], [1, 1]])) (despeckle (to_db [[1, 1], [1, 1]]))
      (land_mask_of (despeckle (to_db [[1, 1], [1, 1]])) (despeckle (to_db [[1, 1], [1, 1]])))) = []
   \<and> change_detection [[1, 1], [1, 1]] [[1, 1], [1, 1]] = Inl EmptyPopulation"
proof -
  have e: "positive (brightening (despeckle (to_db [[1, 1], [1, 1]])) (despeckle (to_db [[1, 1], [1, 1]]))
      (land_mask_of (despeckle (to_db [[1, 1], [1, 1]])) (despeckle (to_db [[1, 1], [1, 1]])))) = []"
    by (simp add: to_db_ones despeckle_zeros land_mask_of_def water_mask_of_def gmap_def gmap2_def
        brightening_def positive_def MIN_BACKSCATTER_DB_def)
  show ?thesis
    using e empty_population_fails [of "[[1, 1], [1, 1]]" "[[1, 1], [1, 1]]" _ _, OF refl refl refl]
    by blast
qed

text \<open>
  C7. When the two input grids differ in shape, the radar pipeline fails with the shape
  error whatever the samples are (so before normalisation and before any percentile is
  taken), and the script writes nothing.
\<close>

theorem shape_mismatch_upfront:
  "shape img1 \<noteq> shape img2 \<Longrightarrow>
     change_detection img1 img2 = Inl ShapeMismatch
   \<and> main_S1 shapes out_folder img1 img2 prof2 w = (Inl ShapeMismatch, w)"
  by (simp add: change_detection_def main_S1_def)

theorem shape_mismatch_upfront_witness:
  "shape [[1 :: real, 2]] \<noteq> shape [[1 :: real], [2]]
   \<and> change_detection [[1, 2]] [[1], [2]] = Inl ShapeMismatch
   \<and> main_S1 (\<lambda>img m t. []) ''out'' [[1, 2]] [[1], [2]]
        \<lparr>transform = \<lparr>x_scale = 10, x_shear = 0, x_origin = 0,
                       y_shear = 0, y_scale = - 10, y_origin = 0\<rparr>, crs = ''EPSG:32633''\<rparr>
        \<lparr>files = Map.empty, stdout = []\<rparr>
      = (Inl ShapeMismatch, \<lparr>files = Map.empty, stdout = []\<rparr>)"
proof -
  have h: "shape [[1 :: real, 2]] \<noteq> shape [[1 :: real], [2]]" by (simp add: shape_def)
  show ?thesis using h shape_mismatch_upfront [OF h] by simp
qed

text \<open>
  C8. The vectoriser keeps exactly the traced polygons of value 1 whose area is at least the
  minimum pixel area times \<open>|x_scale * y_scale|\<close>. When none passes, both variants only
  print their "no changes" line and return; otherwise the kept polygons are what is written.
\<close>

theorem vectoriser_area_filter:
  "(poly \<in> set (kept_polygons shapes m prof min_area) \<longleftrightarrow>
      (poly, 1) \<in> set (shapes m (nonzero m) (transform prof))
      \<and> real min_area * \<bar>x_scale (transform prof) * y_scale (transform prof)\<bar> \<le> poly_area poly)
   \<and> (kept_polygons shapes m prof min_area = [] \<longrightarrow>
        stdout (mask_to_geojson shapes m prof out_path min_area w)
          = stdout w @ [''No change polygons detected.'']
      \<and> stdout (mask_to_geojson_georef shapes m prof out_path min_area w)
          = stdout w @ [''No changes detected for GeoJSON.''])
   \<and> (kept_polygons shapes m prof min_area \<noteq> [] \<longrightarrow>
        files (mask_to_geojson shapes m prof out_path min_area w) out_path
          = Some (GeoJSON (crs prof) (kept_polygons shapes m prof min_area))
      \<and> files (mask_to_geojson_georef shapes m prof out_path min_area w) out_path
          = Some (GeoJSON (crs prof) (kept_polygons shapes m prof min_area)))"
proof -
  have mem: "poly \<in> set (kept_polygons shapes m prof min_area) \<longleftrightarrow>
      (poly, 1) \<in> set (shapes m (nonzero m) (transform prof))
      \<and> real min_area * \<bar>x_scale (transform prof) * y_scale (transform prof)\<bar> \<le> poly_area poly"
    by (force simp: kept_polygons_def Let_def)
  show ?thesis
    unfolding mem by (simp add: mask_to_geojson_def mask_to_geojson_georef_def Let_def)
qed

theorem vectoriser_area_filter_witness:
  "kept_polygons (\<lambda>img m t. [([[(0, 0), (40, 0), (40, 40), (0, 40), (0, 0)]], 1),
                               ([[(50, 50), (60, 50), (60, 60), (50, 60), (50, 50)]], 1)])
      [[1]] \<lparr>transform = \<lparr>x_scale = 10, x_shear = 0, x_origin = 0,
                       y_shear = 0, y_scale = - 10, y_origin = 0\<rparr>, crs = ''EPSG:32633''\<rparr> 10
     = [[[(0, 0), (40, 0), (40, 40), (0, 40), (0, 0)]]]
   \<and> kept_polygons (\<lambda>img m t. [([[(50, 50), (60, 50), (60, 60), (50, 60), (50, 50)]], 1)])
      [[1]] \<lparr>transform = \<lparr>x_scale = 10, x_shear = 0, x_origin = 0,
                       y_shear = 0, y_scale = - 10, y_origin = 0\<rparr>, crs = ''EPSG:32633''\<rparr> 10 = []
   \<and> stdout (mask_to_geojson (\<lambda>img m t. [([[(50, 50), (60, 50), (60, 60), (50, 60), (50, 50)]], 1)])
      [[1]] \<lparr>transform = \<lparr>x_scale = 10, x_shear = 0, x_origin = 0,
                       y_shear = 0, y_scale = - 10, y_origin = 0\<rparr>, crs = ''EPSG:32633''\<rparr>
      ''out/change_polygons.geojson'' 10 \<lparr>files = Map.empty, stdout = []\<rparr>)
     = [''No change polygons detected.'']"
proof -
  have k: "kept_polygons (\<lambda>img m t. [([[(50, 50), (60, 50), (60, 60), (50, 60), (50, 50)]], 1)])
      [[1]] \<lparr>transform = \<lparr>x_scale = 10, x_shear = 0, x_origin = 0,
                       y_shear = 0, y_scale = - 10, y_origin = 0\<rparr>, crs = ''EPSG:32633''\<rparr> 10 = []"
    by (simp add: kept_polygons_def poly_area_def ring_area_def)
  have k2: "kept_polygons (\<lambda>img m t. [([[(0, 0), (40, 0), (40, 40), (0, 40), (0, 0)]], 1),
                               ([[(50, 50), (60, 50), (60, 60), (50, 60), (50, 50)]], 1)])
      [[1]] \<lparr>transform = \<lparr>x_scale = 10, x_shear = 0, x_origin = 0,
                       y_shear = 0, y_scale = - 10, y_origin = 0\<rparr>, crs = ''EPSG:32633''\<rparr> 10
     = [[[(0, 0), (40, 0), (40, 40), (0, 40), (0, 0)]]]"
    by (simp add: kept_polygons_def poly_area_def ring_area_def)
  show ?thesis
    using k k2 vectoriser_area_filter
      [of _ "\<lambda>img m t. [([[(50, 50), (60, 50), (60, 60), (50, 60), (50, 50)]], 1)]" "[[1]]"
       "\<lparr>transform = \<lparr>x_scale = 10, x_shear = 0, x_origin = 0,
                       y_shear = 0, y_scale = - 10, y_origin = 0\<rparr>, crs = ''EPSG:32633''\<rparr>" 10
       "''out/change_polygons.geojson''" "\<lparr>files = Map.empty, stdout = []\<rparr>"]
    by simp
qed

text \<open>
  C10. When every traced polygon falls below the area filter, the vectoriser returns before
  the write: the files are exactly those that were there before, so no GeoJSON appears at the
  output path.
\<close>

theorem empty_result_writes_no_file:
  "kept_polygons shapes m prof min_area = [] \<Longrightarrow>
     files (mask_to_geojson shapes m prof out_path min_area w) = files w
   \<and> files (mask_to_geojson_georef shapes m prof out_path min_area w) = files w"
  by (simp add: mask_to_geojson_def mask_to_geojson_georef_def)

theorem empty_result_writes_no_file_witness:
  "kept_polygons (\<lambda>img m t. [([[(50, 50), (60, 50), (60, 60), (50, 60), (50, 50)]], 1)])
      [[1]] \<lparr>transform = \<lparr>x_scale = 10, x_shear = 0, x_origin = 0,
                       y_shear = 0, y_scale = - 10, y_origin = 0\<rparr>, crs = ''EPSG:32633''\<rparr> 10 = []
   \<and> files (mask_to_geojson (\<lambda>img m t. [([[(50, 50), (60, 50), (60, 60), (50, 60), (50, 50)]], 1)])
      [[1]] \<lparr>transform = \<lparr>x_scale = 10, x_shear = 0, x_origin = 0,
                       y_shear = 0, y_scale = - 10, y_origin = 0\<rparr>, crs = ''EPSG:32633''\<rparr>
      ''out/change_polygons.geojson'' 10 \<lparr>files = Map.empty, stdout = []\<rparr>)
      ''out/change_polygons.geojson'' = None"
proof -
  have k: "kept_polygons (\<lambda>img m t. [([[(50, 50), (60, 50), (60, 60), (50, 60), (50, 50)]], 1)])
      [[1]] \<lparr>transform = \<lparr>x_scale = 10, x_shear = 0, x_origin = 0,
                       y_shear = 0, y_scale = - 10, y_origin = 0\<rparr>, crs = ''EPSG:32633''\<rparr> 10 = []"
    by (simp add: kept_polygons_def poly_area_def ring_area_def)
  show ?thesis
    using k empty_result_writes_no_file [OF k, of "''out/change_polygons.geojson''"
        "\<lparr>files = Map.empty, stdout = []\<rparr>"]
    by simp
qed

text \<open>
  C9. On the optical path the scores enter the threshold and the comparison only through
  their absolute value: negating the first-component scores leaves the thresholded change
  mask, and so the final mask, unchanged.
\<close>

theorem sign_flip_invariant:
  "optical_change_mask (gmap uminus pc1) = optical_change_mask pc1
   \<and> optical_mask_of_scores (gmap uminus pc1) = optical_mask_of_scores pc1"
proof -
  have "gmap abs (gmap uminus pc1) = gmap abs pc1"
    by (simp add: gmap_def)
  then show ?thesis
    by (simp add: optical_change_mask_def optical_mask_of_scores_def)
qed


lemma cells_iff: "p \<in> set (cells h w) \<longleftrightarrow> fst p < h \<and> snd p < w"
  by (cases p) (auto simp: cells_def image_iff)

lemma set_cells_Cons:
  "set_cells (c # cs) v g = set_cells cs v (g[fst c := (g ! fst c)[snd c := v]])"
  by (simp add: set_cells_def split_def)

lemma set_cells_length: "length (set_cells cs v g) = length g"
  by (induction cs arbitrary: g) (simp_all add: set_cells_Cons, simp add: set_cells_def)

lemma set_cells_row_length: "i < length g \<Longrightarrow> length (set_cells cs v g ! i) = length (g ! i)"
proof (induction cs arbitrary: g)
  case Nil
  then show ?case by (simp add: set_cells_def)
next
  case (Cons c cs)
  let ?g = "g[fst c := (g ! fst c)[snd c := v]]"
  have "length (?g ! i) = length (g ! i)"
    using Cons.prems by (cases "fst c = i") simp_all
  moreover have "i < length ?g"
    using Cons.prems by simp
  ultimately show ?case
    using Cons.IH[of ?g] by (simp add: set_cells_Cons)
qed

lemma set_cells_nth:
  "i < length g \<Longrightarrow> j < length (g ! i) \<Longrightarrow>
   set_cells cs v g ! i ! j = (if (i, j) \<in> set cs then v else g ! i ! j)"
proof (induction cs arbitrary: g)
  case Nil
  then show ?case by (simp add: set_cells_def)
next
  case (Cons c cs)
  let ?g = "g[fst c := (g ! fst c)[snd c := v]]"
  have l: "i < length ?g" "j < length (?g ! i)"
    using Cons.prems by (cases "fst c = i"; simp)+
  have "set_cells (c # cs) v g ! i ! j = (if (i, j) \<in> set cs then v else ?g ! i ! j)"
    using Cons.IH[OF l] by (simp add: set_cells_Cons)
  also have "?g ! i ! j = (if (i, j) = c then v else g ! i ! j)"
  proof (cases "fst c = i")
    case True
    then show ?thesis using Cons.prems by (cases c) (auto simp: nth_list_update)
  next
    case False
    then show ?thesis by (cases c) auto
  qed
  finally show ?case by auto
qed

lemma flag_regions_Cons:
  "flag_regions test (r # regs) out
     = flag_regions test regs (if test r then set_cells r 1 out else out)"
  by (simp add: flag_regions_def)

lemma flag_regions_length: "length (flag_regions test regs out) = length out"
  by (induction regs arbitrary: out)
     (simp_all add: flag_regions_Cons set_cells_length, simp add: flag_regions_def)

lemma flag_regions_row_length:
  "i < length out \<Longrightarrow> length (flag_regions test regs out ! i) = length (out ! i)"
proof (induction regs arbitrary: out)
  case Nil
  then show ?case by (simp add: flag_regions_def)
next
  case (Cons r regs)
  then show ?case
    by (simp add: flag_regions_Cons set_cells_length set_cells_row_length)
qed

lemma flag_regions_nth:
  "i < length out \<Longrightarrow> j < length (out ! i) \<Longrightarrow>
   flag_regions test regs out ! i ! j
     = (if list_ex (\<lambda>r. test r \<and> (i, j) \<in> set r) regs then 1 else out ! i ! j)"
proof (induction regs arbitrary: out)
  case Nil
  then show ?case by (simp add: flag_regions_def)
next
  case (Cons r regs)
  let ?o = "if test r then set_cells r 1 out else out"
  have l: "i < length ?o" "j < length (?o ! i)"
    using Cons.prems by (simp_all add: set_cells_length set_cells_row_length)
  show ?case
    using Cons.IH[OF l] Cons.prems
    by (auto simp: flag_regions_Cons set_cells_nth)
qed

lemma regionprops_mem:
  assumes "r \<in> set (regionprops l)"
  obtains k where "0 < k" "r \<noteq> []"
    "r = filter (\<lambda>(i, j). l ! i ! j = k) (cells (fst (shape l)) (snd (shape l)))"
proof -
  from assms obtain k where k: "k \<in> set [1..<Suc (fold max (concat l) 0)]"
    and r: "r = filter (\<lambda>(i, j). l ! i ! j = k) (cells (fst (shape l)) (snd (shape l)))" "r \<noteq> []"
    unfolding regionprops_def by auto
  from k have "0 < k" by (simp del: upt_Suc)
  with r that show thesis by blast
qed

lemma region_cell:
  assumes "r \<in> set (regionprops l)" "p \<in> set r"
  shows "fst p < fst (shape l) \<and> snd p < snd (shape l) \<and> l ! fst p ! snd p \<noteq> 0"
  using assms by (elim regionprops_mem) (auto simp: cells_iff split_def)

lemma region_same_label:
  assumes "r \<in> set (regionprops l)" "r' \<in> set (regionprops l)" "p \<in> set r" "p \<in> set r'"
  shows "r = r'"
  using assms by (elim regionprops_mem) (auto simp: split_def)

lemma no_overlap_iff: "no_overlap other r \<longleftrightarrow> (\<forall>p \<in> set r. other ! fst p ! snd p = 0)"
  by (auto simp: no_overlap_def list_all_iff)

lemma zeros_like_nth:
  "i < length g \<Longrightarrow> j < length (g ! i) \<Longrightarrow> zeros_like g ! i ! j = 0"
  by (simp add: zeros_like_def gmap_def)

lemma appearance_nth:
  assumes "i < length l1" "j < length (l1 ! i)"
  shows "appearance l1 l2 (zeros_like l1) ! i ! j
     = (if list_ex (\<lambda>r. no_overlap l2 r \<and> (i, j) \<in> set r) (regionprops l1)
           \<or> list_ex (\<lambda>r. no_overlap l1 r \<and> (i, j) \<in> set r) (regionprops l2)
        then 1 else 0)"
proof -
  have z: "i < length (zeros_like l1)" "j < length (zeros_like l1 ! i)"
    using assms by (simp_all add: zeros_like_def gmap_def)
  let ?inner = "flag_regions (no_overlap l1) (regionprops l2) (zeros_like l1)"
  have i: "i < length ?inner" "j < length (?inner ! i)"
    using z by (simp_all add: flag_regions_length flag_regions_row_length)
  show ?thesis
    unfolding appearance_def
    by (simp add: flag_regions_nth[OF i] flag_regions_nth[OF z] zeros_like_nth[OF assms])
qed

lemma appearance_region:
  assumes "rect l1" "rect l2" "shape l1 = shape l2"
    and "r \<in> set (regionprops own)" "p \<in> set r"
    and "own = l1 \<and> other = l2 \<or> own = l2 \<and> other = l1"
  shows "appearance l1 l2 (zeros_like l1) ! fst p ! snd p = (if no_overlap other r then 1 else 0)"
proof -
  have so: "shape own = shape l1" "shape other = shape l1"
    using assms(3,6) by auto
  have c: "fst p < fst (shape l1)" "snd p < snd (shape l1)" "own ! fst p ! snd p \<noteq> 0"
    using region_cell[OF assms(4,5)] so by simp_all
  have li: "fst p < length l1"
    using c(1) by (simp add: shape_def)
  have lj: "snd p < length (l1 ! fst p)"
    using c(2) rect_nth[OF assms(1) li] by simp
  have own_only: "r' = r" if "r' \<in> set (regionprops own)" "p \<in> set r'" for r'
    using region_same_label[OF that(1) assms(4) that(2) assms(5)] .
  have other_none: False if "r' \<in> set (regionprops other)" "p \<in> set r'" "no_overlap own r'" for r'
    using that c(3) by (auto simp: no_overlap_iff)
  have p: "(fst p, snd p) = p" by simp
  have E: "(\<exists>r' \<in> set (regionprops own). no_overlap other r' \<and> p \<in> set r')
           \<longleftrightarrow> no_overlap other r"
    using assms(4,5) own_only by blast
  have N: "\<not> (\<exists>r' \<in> set (regionprops other). no_overlap own r' \<and> p \<in> set r')"
    using other_none by blast
  have "(list_ex (\<lambda>r'. no_overlap l2 r' \<and> (fst p, snd p) \<in> set r') (regionprops l1)
           \<or> list_ex (\<lambda>r'. no_overlap l1 r' \<and> (fst p, snd p) \<in> set r') (regionprops l2))
        \<longleftrightarrow> no_overlap other r"
  proof (rule disjE[OF assms(6)])
    assume "own = l1 \<and> other = l2"
    then show ?thesis using E N by (simp only: p list_ex_iff) blast
  next
    assume "own = l2 \<and> other = l1"
    then show ?thesis using E N by (simp only: p list_ex_iff) blast
  qed
  then show ?thesis
    using appearance_nth[OF li lj, of l2] by simp
qed

text \<open>
  C4. In the appearance/disappearance criterion, take a region of one time's labelled mask.
  Every cell of its footprint is marked 1 when no cell of the footprint carries a nonzero
  label in the other labelled mask, and every cell of its footprint is left 0 otherwise
  (regions are never empty, so the region is flagged exactly when it is unmatched, and then
  as a whole). A region with the same footprint in both masks is therefore not flagged.
\<close>

theorem appearance_flags_unmatched:
  assumes "rect labeled1" "rect labeled2" "shape labeled1 = shape labeled2"
  shows "(r \<in> set (regionprops labeled2) \<longrightarrow> r \<noteq> [] \<and>
            (\<forall>p \<in> set r. appearance labeled1 labeled2 (zeros_like labeled1) ! fst p ! snd p
                = (if \<forall>q \<in> set r. labeled1 ! fst q ! snd q = 0 then 1 else 0)))
       \<and> (r \<in> set (regionprops labeled1) \<longrightarrow> r \<noteq> [] \<and>
            (\<forall>p \<in> set r. appearance labeled1 labeled2 (zeros_like labeled1) ! fst p ! snd p
                = (if \<forall>q \<in> set r. labeled2 ! fst q ! snd q = 0 then 1 else 0)))
       \<and> (r \<in> set (regionprops labeled1) \<and> r \<in> set (regionprops labeled2) \<longrightarrow>
            (\<forall>p \<in> set r. appearance labeled1 labeled2 (zeros_like labeled1) ! fst p ! snd p = 0))"
proof -
  have ne: "r \<noteq> []" if "r \<in> set (regionprops l)" for l :: "nat grid"
    using that by (elim regionprops_mem)
  have a2: "appearance labeled1 labeled2 (zeros_like labeled1) ! fst p ! snd p
      = (if \<forall>q \<in> set r. labeled1 ! fst q ! snd q = 0 then 1 else 0)"
    if "r \<in> set (regionprops labeled2)" "p \<in> set r" for p
    using appearance_region[OF assms that, of labeled1] by (simp add: no_overlap_iff)
  have a1: "appearance labeled1 labeled2 (zeros_like labeled1) ! fst p ! snd p
      = (if \<forall>q \<in> set r. labeled2 ! fst q ! snd q = 0 then 1 else 0)"
    if "r \<in> set (regionprops labeled1)" "p \<in> set r" for p
    using appearance_region[OF assms that, of labeled2] by (simp add: no_overlap_iff)
  have both: "appearance labeled1 labeled2 (zeros_like labeled1) ! fst p ! snd p = 0"
    if "r \<in> set (regionprops labeled1)" "r \<in> set (regionprops labeled2)" "p \<in> set r" for p
  proof -
    have "labeled1 ! fst p ! snd p \<noteq> 0"
      using region_cell[OF that(1,3)] by simp
    then have "\<not> (\<forall>q \<in> set r. labeled1 ! fst q ! snd q = 0)"
      using that(3) by auto
    then show ?thesis using a2[OF that(2,3)] by simp
  qed
  show ?thesis using ne a1 a2 both by blast
qed

theorem appearance_flags_unmatched_witness:
  "rect [[1, 1, 0], [0, 0, 0], [0, 0, 2 :: nat]] \<and> rect [[1, 1, 0], [0, 0, 0], [2, 0, 0 :: nat]]
   \<and> regionprops [[1, 1, 0], [0, 0, 0], [0, 0, 2]] = [[(0, 0), (0, 1)], [(2, 2)]]
   \<and> regionprops [[1, 1, 0], [0, 0, 0], [2, 0, 0]] = [[(0, 0), (0, 1)], [(2, 0)]]
   \<and> appearance [[1, 1, 0], [0, 0, 0], [0, 0, 2]] [[1, 1, 0], [0, 0, 0], [2, 0, 0]]
        (zeros_like [[1, 1, 0], [0, 0, 0], [0, 0, 2 :: nat]]) ! 2 ! 0 = 1
   \<and> appearance [[1, 1, 0], [0, 0, 0], [0, 0, 2]] [[1, 1, 0], [0, 0, 0], [2, 0, 0]]
        (zeros_like [[1, 1, 0], [0, 0, 0], [0, 0, 2 :: nat]]) ! 0 ! 1 = 0"
proof -
  have r1: "rect [[1, 1, 0], [0, 0, 0], [0, 0, 2 :: nat]]"
    and r2: "rect [[1, 1, 0], [0, 0, 0], [2, 0, 0 :: nat]]"
    by (simp_all add: rect_def shape_def)
  have s: "shape [[1, 1, 0], [0, 0, 0], [0, 0, 2 :: nat]] = shape [[1, 1, 0], [0, 0, 0], [2, 0, 0 :: nat]]"
    by (simp add: shape_def)
  have p1: "regionprops [[1, 1, 0], [0, 0, 0], [0, 0, 2]] = [[(0, 0), (0, 1)], [(2, 2)]]"
    by code_simp
  have p2: "regionprops [[1, 1, 0], [0, 0, 0], [2, 0, 0]] = [[(0, 0), (0, 1)], [(2, 0)]]"
    by code_simp
  have m: "[(2, 0)] \<in> set (regionprops [[1, 1, 0], [0, 0, 0], [2, 0, 0]])"
    "[(0, 0), (0, 1)] \<in> set (regionprops [[1, 1, 0], [0, 0, 0], [2, 0, 0]])"
    unfolding p2 by simp_all
  have a: "appearance [[1, 1, 0], [0, 0, 0], [0, 0, 2]] [[1, 1, 0], [0, 0, 0], [2, 0, 0]]
        (zeros_like [[1, 1, 0], [0, 0, 0], [0, 0, 2 :: nat]]) ! 2 ! 0 = 1"
    using appearance_flags_unmatched [OF r1 r2 s, of "[(2, 0)]"] m(1) by simp
  have b: "appearance [[1, 1, 0], [0, 0, 0], [0, 0, 2]] [[1, 1, 0], [0, 0, 0], [2, 0, 0]]
        (zeros_like [[1, 1, 0], [0, 0, 0], [0, 0, 2 :: nat]]) ! 0 ! 1 = 0"
    using appearance_flags_unmatched [OF r1 r2 s, of "[(0, 0), (0, 1)]"] m(2) by simp
  show ?thesis
    using r1 r2 p1 p2 a b by blast
qed

lemma tabulate_const: "tabulate h w (\<lambda>i j. c) = replicate h (replicate w c)"
  by (simp add: tabulate_def map_replicate_const)

lemma shape_replicate: "0 < h \<Longrightarrow> shape (replicate h (replicate w c)) = (h, w)"
  by (cases h) (simp_all add: shape_def)

lemma rect_concat_length: "rect g \<Longrightarrow> length (concat g) = fst (shape g) * snd (shape g)"
proof -
  assume "rect g"
  then have "map length g = replicate (length g) (snd (shape g))"
    by (auto simp: rect_def list_all_iff intro!: replicate_eqI)
  then show ?thesis
    by (simp add: length_concat sum_list_replicate shape_def)
qed

lemma gmap2_same: "gmap2 f g g = gmap (\<lambda>x. f x x) g"
  by (simp add: gmap2_def gmap_def zip_same_conv_map)

lemma concat_gmap: "concat (gmap f g) = map f (concat g)"
  by (simp add: gmap_def map_concat)

lemma diff_flat_same:
  assumes "\<forall>band \<in> set pre. rect band \<and> shape band = (h, w)" and "pre \<noteq> []"
  shows "diff_flat pre pre = replicate (h * w) (replicate (length pre) 0)"
proof -
  have hd: "shape (hd pre) = (h, w)"
    using assms by simp
  have len: "length (concat band) = h * w" if "band \<in> set pre" for band
    using assms(1) that rect_concat_length[of band] by simp
  have row: "map (\<lambda>band. concat band ! k) (map2 (gmap2 (-)) pre pre) = replicate (length pre) 0"
    if "k < h * w" for k
  proof -
    have "map (\<lambda>band. concat band ! k) (map2 (gmap2 (-)) pre pre)
        = map (\<lambda>band. concat (gmap (\<lambda>x. 0) band) ! k) pre"
      by (simp add: zip_same_conv_map gmap2_same comp_def)
    also have "\<dots> = map (\<lambda>band. 0) pre"
      using that len by (intro map_cong) (simp_all add: concat_gmap)
    finally show ?thesis by (simp add: map_replicate_const)
  qed
  have "map (\<lambda>k. map (\<lambda>band. concat band ! k) (map2 (gmap2 (-)) pre pre)) [0..<h * w]
      = map (\<lambda>k. replicate (length pre) 0) [0..<h * w]"
  proof (rule map_cong[OF refl])
    fix k assume "k \<in> set [0..<h * w]"
    then have "k < h * w" by simp
    then show "map (\<lambda>band. concat band ! k) (map2 (gmap2 (-)) pre pre) = replicate (length pre) 0"
      by (rule row)
  qed
  then have "diff_flat pre pre = map (\<lambda>k. replicate (length pre) 0) [0..<h * w]"
    by (simp add: diff_flat_def Let_def hd)
  then show ?thesis by (simp add: map_replicate_const)
qed

lemma pc1_scores_const:
  assumes "\<forall>x \<in> set X. x = d" and "X \<noteq> []"
  shows "pc1_scores axis X = replicate (length X) 0"
proof -
  have col: "map (\<lambda>x. x ! b) X = replicate (length X) (d ! b)" for b
    using assms(1) by (intro replicate_eqI) auto
  have n: "real (length X) \<noteq> 0"
    using assms(2) by simp
  have mu: "column_means X ! b = d ! b" if "b < 4" for b
    using that n by (simp add: column_means_def col sum_list_replicate)
  have "sum_list (map (\<lambda>b. (x ! b - column_means X ! b) * axis ! b) [0..<4]) = 0"
    if "x \<in> set X" for x
  proof -
    have "map (\<lambda>b. (x ! b - column_means X ! b) * axis ! b) [0..<4] = map (\<lambda>b. 0) [0..<4]"
      using that assms(1) mu by (intro map_cong) auto
    then show ?thesis by (simp add: map_replicate_const sum_list_replicate)
  qed
  then have "pc1_scores axis X = map (\<lambda>x. 0) X"
    unfolding pc1_scores_def Let_def by (intro map_cong) auto
  then show ?thesis by (simp add: map_replicate_const)
qed

lemma reshape_zeros: "reshape h w (replicate (h * w) 0) = replicate h (replicate w 0)"
proof -
  have "i * w + j < h * w" if "i < h" "j < w" for i j
  proof -
    have "i * w + j < i * w + w" using that by simp
    also have "\<dots> = Suc i * w" by simp
    also have "\<dots> \<le> h * w" using that(1) by (intro mult_le_mono1) simp
    finally show ?thesis .
  qed
  then have "tabulate h w (\<lambda>i j. replicate (h * w) (0::'a) ! (i * w + j)) = tabulate h w (\<lambda>i j. 0)"
    unfolding tabulate_def by (intro map_cong) auto
  then show ?thesis by (simp add: reshape_def tabulate_const)
qed

lemma percentile_replicate:
  assumes "0 \<le> q" "q \<le> 100" "0 < n"
  shows "percentile (replicate n c) q = Inr c"
proof -
  have s: "sort (replicate n c) = replicate n c"
    by (simp add: sorted_sort_id sorted_replicate)
  have "q / 100 \<le> 1"
    using assms by simp
  then have "real (n - 1) * (q / 100) \<le> real (n - 1)"
    by (rule mult_left_le) simp
  then have "\<lfloor>real (n - 1) * (q / 100)\<rfloor> \<le> int (n - 1)"
    by linarith
  then have lo: "nat \<lfloor>real (n - 1) * (q / 100)\<rfloor> < n"
    using assms(3) by linarith
  have hi: "min (nat \<lfloor>real (n - 1) * (q / 100)\<rfloor> + 1) (n - 1) < n"
    using assms(3) by linarith
  show ?thesis
    using assms lo hi by (simp add: percentile_def Let_def s)
qed


lemma gmap_replicate: "gmap f (replicate h (replicate w c)) = replicate h (replicate w (f c))"
  by (simp add: gmap_def)

lemma concat_replicate_rows: "concat (replicate h (replicate w c)) = replicate (h * w) c"
  by (induction h) (simp_all add: replicate_add)

lemma cell_at_False: "\<not> cell_at (replicate h (replicate w False)) i j"
proof (cases "0 < h")
  case True
  then show ?thesis
    by (auto simp: cell_at_def shape_replicate nat_less_iff)
next
  case False
  then show ?thesis
    by (simp add: cell_at_def shape_def)
qed

lemma binary_erosion_False:
  "st \<noteq> [] \<Longrightarrow> 0 < h \<Longrightarrow>
   binary_erosion st (replicate h (replicate w False)) = replicate h (replicate w False)"
  by (cases st) (simp_all add: binary_erosion_def shape_replicate cell_at_False tabulate_const split_def)

lemma binary_dilation_False:
  "0 < h \<Longrightarrow>
   binary_dilation st (replicate h (replicate w False)) = replicate h (replicate w False)"
  by (simp add: binary_dilation_def shape_replicate cell_at_False tabulate_const split_def list_ex_iff)

lemma label_from_background:
  "\<forall>p \<in> set ps. \<not> m ! fst p ! snd p \<Longrightarrow> label_from m ps k l = l"
  by (induction ps arbitrary: k l) simp_all

lemma label_False:
  "0 < h \<Longrightarrow> label (replicate h (replicate w False)) = replicate h (replicate w 0)"
  unfolding label_def
  by (subst label_from_background)
     (auto simp: shape_replicate cells_iff zeros_like_def gmap_replicate)

lemma fold_max_zero: "\<forall>x \<in> set xs. x = 0 \<Longrightarrow> fold max xs (0::nat) = 0"
  by (induction xs) simp_all

lemma regionprops_zeros: "regionprops (replicate h (replicate w 0)) = []"
proof -
  have "fold max (concat (replicate h (replicate w 0))) (0::nat) = 0"
    by (rule fold_max_zero) (simp add: concat_replicate_rows)
  then show ?thesis
    unfolding regionprops_def by simp
qed

lemma ship_filter_False:
  assumes "0 < h"
  shows "ship_filter (replicate h (replicate w False)) = replicate h (replicate w 0)"
proof -
  have c: "cross \<noteq> []" by (simp add: cross_def)
  have o: "binary_opening cross 1 (replicate h (replicate w False)) = replicate h (replicate w False)"
    using assms by (simp add: binary_opening_def binary_erosion_False[OF c] binary_dilation_False)
  have "(binary_dilation cross ^^ 2) (replicate h (replicate w False)) = replicate h (replicate w False)"
    using assms by (simp add: numeral_2_eq_2 binary_dilation_False)
  moreover have "(binary_erosion cross ^^ 2) (replicate h (replicate w False)) = replicate h (replicate w False)"
    using assms by (simp add: numeral_2_eq_2 binary_erosion_False[OF c])
  ultimately have cl: "binary_closing cross 2 (replicate h (replicate w False))
      = replicate h (replicate w False)"
    by (simp add: binary_closing_def)
  show ?thesis
    unfolding ship_filter_def Let_def o cl label_False[OF assms] regionprops_zeros
      flag_regions_def zeros_like_def gmap_replicate
    by simp
qed

lemma optical_change_mask_zeros:
  assumes "0 < h * w"
  shows "optical_change_mask (replicate h (replicate w 0)) = Inr (replicate h (replicate w False))"
  using assms
  by (simp add: optical_change_mask_def Let_def gmap_replicate concat_replicate_rows
      percentile_replicate)

text \<open>
  C3 (as amended). On the optical path, when the post image equals the pre image in all four
  bands (at least four pixels, so that the decomposition accepts the input), no error is
  raised: every score is 0 whatever axis the decomposition returns, the threshold is 0, the
  strict comparison selects no pixel, and the final mask is all zeros.
\<close>

theorem identical_stacks_empty_mask:
  assumes "length pre = 4"
    and "\<forall>band \<in> set pre. rect band \<and> shape band = (h, w)"
    and "4 \<le> h * w"
  shows "optical_final_mask axis pre pre = Inr (replicate h (replicate w 0))"
proof -
  have ne: "pre \<noteq> []" using assms(1) by auto
  have hd: "shape (hd pre) = (h, w)" using assms(2) ne by simp
  have "h * w \<noteq> 0" using assms(3) by linarith
  then have pos: "0 < h * w" "0 < h" by simp_all
  have X: "diff_flat pre pre = replicate (h * w) (replicate (length pre) 0)"
    by (rule diff_flat_same[OF assms(2) ne])
  have sc: "pc1_scores axis (diff_flat pre pre) = replicate (h * w) 0"
    using pc1_scores_const[of "diff_flat pre pre" "replicate (length pre) 0" axis] pos(1)
    by (simp add: X)
  have fit: "fit_transform_pc1 axis (diff_flat pre pre) = Inr (replicate (h * w) 0)"
    using assms(3) by (simp add: fit_transform_pc1_def sc) (simp add: X)
  show ?thesis
    using pos
    by (simp add: optical_final_mask_def fit hd reshape_zeros optical_mask_of_scores_def
        optical_change_mask_zeros ship_filter_False)
qed


theorem identical_stacks_empty_mask_witness:
  "length [[[1, 2], [3, 4]], [[5, 6], [7, 8]], [[2, 2], [2, 2]], [[9, 9], [9, 9 :: real]]] = 4
   \<and> list_all (\<lambda>band. rect band \<and> shape band = (2, 2))
         [[[1, 2], [3, 4]], [[5, 6], [7, 8]], [[2, 2], [2, 2]], [[9, 9], [9, 9 :: real]]]
   \<and> optical_final_mask [1, 0, 0, 0]
        [[[1, 2], [3, 4]], [[5, 6], [7, 8]], [[2, 2], [2, 2]], [[9, 9], [9, 9]]]
        [[[1, 2], [3, 4]], [[5, 6], [7, 8]], [[2, 2], [2, 2]], [[9, 9], [9, 9]]]
      = Inr [[0, 0], [0, 0]]"
proof -
  have b: "\<forall>band \<in> set [[[1, 2], [3, 4]], [[5, 6], [7, 8]], [[2, 2], [2, 2]], [[9, 9], [9, 9 :: real]]].
         rect band \<and> shape band = (2, 2)"
    by (simp add: rect_def shape_def)
  show ?thesis
    using b identical_stacks_empty_mask [OF _ b, of "[1, 0, 0, 0]"]
    by (simp add: numeral_2_eq_2 list_all_iff)
qed

text \<open>
  C3 as stated fails: for a 2x2 image of four bands compared with itself the optical
  pipeline returns normally, with the all-zero mask.
\<close>

theorem degenerate_input_counterexample:
  "optical_final_mask [1, 0, 0, 0]
        [[[1, 2], [3, 4]], [[5, 6], [7, 8]], [[2, 2], [2, 2]], [[9, 9], [9, 9]]]
        [[[1, 2], [3, 4]], [[5, 6], [7, 8]], [[2, 2], [2, 2]], [[9, 9], [9, 9]]]
      = Inr [[0, 0], [0, 0]]"
  by code_simp

lemma shape_Nil_iff: "fst (shape g) = 0 \<longleftrightarrow> g = []"
  by (simp add: shape_def)

lemma tabulate_nth: "i < h \<Longrightarrow> j < w \<Longrightarrow> tabulate h w f ! i ! j = f i j"
  by (simp add: tabulate_def)

lemma tabulate_length: "length (tabulate h w f) = h"
  by (simp add: tabulate_def)

lemma tabulate_row_length: "i < h \<Longrightarrow> length (tabulate h w f ! i) = w"
  by (simp add: tabulate_def)

lemma shape_tabulate: "shape (tabulate h w f) = (h, if h = 0 then 0 else w)"
  by (cases h) (simp_all add: shape_def tabulate_def upt_conv_Cons del: upt_Suc)

lemma shape_tabulate_shape: "shape (tabulate (fst (shape g)) (snd (shape g)) f) = shape g"
  unfolding shape_tabulate by (cases g) (simp_all add: shape_def)

lemma cell_at_tabulate:
  "cell_at (tabulate (fst (shape g)) (snd (shape g)) f) i j \<longleftrightarrow>
     0 \<le> i \<and> i < int (fst (shape g)) \<and> 0 \<le> j \<and> j < int (snd (shape g)) \<and> f (nat i) (nat j)"
  unfolding cell_at_def shape_tabulate_shape
  by (auto simp: tabulate_nth nat_less_iff)

lemma shape_erosion: "shape (binary_erosion st m) = shape m"
  by (simp add: binary_erosion_def shape_tabulate_shape)

lemma shape_dilation: "shape (binary_dilation st m) = shape m"
  by (simp add: binary_dilation_def shape_tabulate_shape)

lemma cell_at_erosion:
  "cell_at (binary_erosion st m) i j \<longleftrightarrow>
     0 \<le> i \<and> i < int (fst (shape m)) \<and> 0 \<le> j \<and> j < int (snd (shape m))
     \<and> (\<forall>d \<in> set st. cell_at m (i + fst d) (j + snd d))"
  unfolding binary_erosion_def cell_at_tabulate
  by (auto simp: list_all_iff split_def)

lemma cell_at_dilation:
  "cell_at (binary_dilation st m) i j \<longleftrightarrow>
     0 \<le> i \<and> i < int (fst (shape m)) \<and> 0 \<le> j \<and> j < int (snd (shape m))
     \<and> (\<exists>d \<in> set st. cell_at m (i - fst d) (j - snd d))"
  unfolding binary_dilation_def cell_at_tabulate
  by (auto simp: list_ex_iff split_def)

lemma cell_at_range:
  "cell_at m i j \<Longrightarrow> 0 \<le> i \<and> i < int (fst (shape m)) \<and> 0 \<le> j \<and> j < int (snd (shape m))"
  by (simp add: cell_at_def)

lemma origin_in_square: "(0, 0) \<in> set square"
  by (simp add: square_def)

lemma cell_at_erosion_square:
  "cell_at (binary_erosion square m) i j \<longleftrightarrow> (\<forall>d \<in> set square. cell_at m (i + fst d) (j + snd d))"
proof
  assume "cell_at (binary_erosion square m) i j"
  then show "\<forall>d \<in> set square. cell_at m (i + fst d) (j + snd d)"
    by (simp add: cell_at_erosion)
next
  assume a: "\<forall>d \<in> set square. cell_at m (i + fst d) (j + snd d)"
  then have "cell_at m i j"
    using origin_in_square by fastforce
  then show "cell_at (binary_erosion square m) i j"
    using a cell_at_range[of m i j] by (simp add: cell_at_erosion)
qed

lemma opening_subset:
  "cell_at (binary_dilation st (binary_erosion st m)) i j \<Longrightarrow> cell_at m i j"
  by (auto simp: cell_at_dilation cell_at_erosion shape_erosion)

lemma dilation_mono:
  assumes "shape a = shape b" and "\<And>i j. cell_at a i j \<Longrightarrow> cell_at b i j"
  shows "cell_at (binary_dilation st a) i j \<Longrightarrow> cell_at (binary_dilation st b) i j"
  using assms by (auto simp: cell_at_dilation)

lemma erosion_mono:
  assumes "shape a = shape b" and "\<And>i j. cell_at a i j \<Longrightarrow> cell_at b i j"
  shows "cell_at (binary_erosion st a) i j \<Longrightarrow> cell_at (binary_erosion st b) i j"
  using assms by (auto simp: cell_at_erosion)

lemma opening_1: "binary_opening st 1 m = binary_dilation st (binary_erosion st m)"
  by (simp add: binary_opening_def)

lemma closing_1: "binary_closing st 1 m = binary_erosion st (binary_dilation st m)"
  by (simp add: binary_closing_def)

lemma adjacent8_refl: "adjacent8 p p"
  by (simp add: adjacent8_def)

lemma adjacent8_sym: "adjacent8 p q \<Longrightarrow> adjacent8 q p"
  by (simp add: adjacent8_def abs_minus_commute)

lemma foreground_iff:
  "q \<in> foreground m \<longleftrightarrow> fst q < fst (shape m) \<and> snd q < snd (shape m) \<and> m ! fst q ! snd q"
  by (auto simp: foreground_def cells_iff)

lemma length_cells: "length (cells h w) = h * w"
  by (simp add: cells_def length_concat comp_def sum_list_triv)

lemma foreground_card: "card (foreground m) \<le> fst (shape m) * snd (shape m)"
proof -
  have "card (foreground m) \<le> length (filter (\<lambda>q. m ! fst q ! snd q) (cells (fst (shape m)) (snd (shape m))))"
    unfolding foreground_def by (rule card_length)
  also have "\<dots> \<le> length (cells (fst (shape m)) (snd (shape m)))"
    by (rule length_filter_le)
  finally show ?thesis by (simp add: length_cells)
qed

lemma finite_foreground: "finite (foreground m)"
  by (simp add: foreground_def)

lemma set_grow: "set (grow m s) = {q \<in> foreground m. \<exists>x \<in> set s. adjacent8 q x}"
  by (auto simp: grow_def foreground_def list_ex_iff)

lemma grow_cong: "set s = set t \<Longrightarrow> grow m s = grow m t"
  by (simp add: grow_def list_ex_iff)

lemma grow_extensive: "set s \<subseteq> foreground m \<Longrightarrow> set s \<subseteq> set (grow m s)"
  using adjacent8_refl by (auto simp: set_grow)

lemma grow_iter_subset:
  "p \<in> foreground m \<Longrightarrow> set ((grow m ^^ k) [p]) \<subseteq> foreground m"
  by (cases k) (auto simp: set_grow)

lemma grow_chain:
  "p \<in> foreground m \<Longrightarrow> set ((grow m ^^ k) [p]) \<subseteq> set ((grow m ^^ Suc k) [p])"
  using grow_extensive[OF grow_iter_subset, of p m k] by simp

lemma grow_card:
  assumes "p \<in> foreground m"
  shows "set ((grow m ^^ Suc k) [p]) = set ((grow m ^^ k) [p])
         \<or> Suc k \<le> card (set ((grow m ^^ k) [p]))"
proof (induction k)
  case 0
  then show ?case by simp
next
  case (Suc k)
  show ?case
  proof (cases "set ((grow m ^^ Suc k) [p]) = set ((grow m ^^ k) [p])")
    case True
    then have "grow m ((grow m ^^ Suc k) [p]) = grow m ((grow m ^^ k) [p])"
      by (rule grow_cong)
    then show ?thesis by simp
  next
    case False
    then have "set ((grow m ^^ k) [p]) \<subset> set ((grow m ^^ Suc k) [p])"
      using grow_chain[OF assms, of k] by blast
    then have "card (set ((grow m ^^ k) [p])) < card (set ((grow m ^^ Suc k) [p]))"
      by (intro psubset_card_mono) simp_all
    moreover have "Suc k \<le> card (set ((grow m ^^ k) [p]))"
      using Suc.IH False by blast
    ultimately show ?thesis by simp
  qed
qed

lemma component_subset: "p \<in> foreground m \<Longrightarrow> set (component m p) \<subseteq> foreground m"
  unfolding component_def by (rule grow_iter_subset)

lemma component_fixpoint:
  assumes "p \<in> foreground m"
  shows "set (grow m (component m p)) = set (component m p)"
proof -
  let ?n = "fst (shape m) * snd (shape m)"
  have "card (set ((grow m ^^ ?n) [p])) \<le> card (foreground m)"
    by (intro card_mono finite_foreground grow_iter_subset assms)
  then have "\<not> Suc ?n \<le> card (set ((grow m ^^ ?n) [p]))"
    using foreground_card[of m] by simp
  then have "set ((grow m ^^ Suc ?n) [p]) = set ((grow m ^^ ?n) [p])"
    using grow_card[OF assms, of ?n] by blast
  then show ?thesis by (simp add: component_def)
qed

lemma component_closed:
  assumes "p \<in> foreground m" "q \<in> set (component m p)" "q' \<in> foreground m" "adjacent8 q' q"
  shows "q' \<in> set (component m p)"
proof -
  have "q' \<in> set (grow m (component m p))"
    using assms(2,3,4) by (auto simp: set_grow)
  then show ?thesis by (simp add: component_fixpoint[OF assms(1)])
qed

lemma label_from_length: "length (label_from m ps k l) = length l"
  by (induction ps arbitrary: k l) (simp_all add: set_cells_length)

lemma label_from_row_length:
  "i < length l \<Longrightarrow> length (label_from m ps k l ! i) = length (l ! i)"
  by (induction ps arbitrary: k l) (simp_all add: set_cells_length set_cells_row_length)

lemma label_from_invariant:
  fixes m :: "bool grid"
  defines "h \<equiv> fst (shape m)" and "w \<equiv> snd (shape m)"
  defines "I \<equiv> \<lambda>l :: nat grid.
      (\<forall>c. fst c < h \<and> snd c < w \<and> l ! fst c ! snd c \<noteq> 0 \<longrightarrow> c \<in> foreground m)
    \<and> (\<forall>c c'. fst c < h \<and> snd c < w \<and> l ! fst c ! snd c \<noteq> 0 \<and> c' \<in> foreground m
           \<and> adjacent8 c' c \<longrightarrow> l ! fst c' ! snd c' = l ! fst c ! snd c)"
  assumes "set ps \<subseteq> set (cells h w)" "length l = h" "\<forall>i < h. length (l ! i) = w" "I l"
  shows "I (label_from m ps k l)"
  using assms(4-)
proof (induction ps arbitrary: k l)
  case Nil
  then show ?case by simp
next
  case (Cons p ps)
  show ?case
  proof (cases "m ! fst p ! snd p \<and> l ! fst p ! snd p = 0")
    case False
    then have "label_from m (p # ps) k l = label_from m ps k l"
      by (simp only: label_from.simps if_False)
    then show ?thesis using Cons.IH[OF _ Cons.prems(2,3,4)] Cons.prems(1) by simp
  next
    case True
    let ?C = "component m p"
    let ?l = "set_cells ?C (Suc k) l"
    have pf: "p \<in> foreground m"
      using True Cons.prems(1) by (simp add: foreground_iff cells_iff h_def w_def)
    have nth: "?l ! fst c ! snd c = (if c \<in> set ?C then Suc k else l ! fst c ! snd c)"
      if "fst c < h" "snd c < w" for c
      using set_cells_nth[of "fst c" l "snd c" ?C "Suc k"] that Cons.prems(2,3) by simp
    have fr: "fst c < h \<and> snd c < w" if "c \<in> foreground m" for c
      using that by (simp add: foreground_iff h_def w_def)
    have A: "c \<in> foreground m" if "fst c < h" "snd c < w" "?l ! fst c ! snd c \<noteq> 0" for c
    proof (cases "c \<in> set ?C")
      case True
      then show ?thesis using component_subset[OF pf] by blast
    next
      case False
      then show ?thesis
        using that nth[OF that(1,2)] Cons.prems(4)[unfolded I_def, THEN conjunct1, rule_format, of c]
        by simp
    qed
    have B: "?l ! fst c' ! snd c' = ?l ! fst c ! snd c"
      if "fst c < h" "snd c < w" "?l ! fst c ! snd c \<noteq> 0" "c' \<in> foreground m" "adjacent8 c' c"
      for c c'
    proof (cases "c \<in> set ?C")
      case True
      then have "c' \<in> set ?C"
        using component_closed[OF pf _ that(4,5)] by blast
      then show ?thesis
        using True nth[OF that(1,2)] nth[of c'] fr[OF that(4)] by simp
    next
      case False
      then have nz: "l ! fst c ! snd c \<noteq> 0"
        using that(3) nth[OF that(1,2)] by simp
      then have cf: "c \<in> foreground m"
        using Cons.prems(4)[unfolded I_def, THEN conjunct1, rule_format, of c] that(1,2) by simp
      have "c' \<notin> set ?C"
      proof
        assume "c' \<in> set ?C"
        then have "c \<in> set ?C"
          using component_closed[OF pf _ cf adjacent8_sym[OF that(5)]] by blast
        then show False using False by simp
      qed
      moreover have "l ! fst c' ! snd c' = l ! fst c ! snd c"
        using Cons.prems(4)[unfolded I_def, THEN conjunct2, rule_format, of c c'] that(1,2,4,5) nz
        by simp
      ultimately show ?thesis
        using False nth[OF that(1,2)] nth[of c'] fr[OF that(4)] by simp
    qed
    have I': "I ?l"
      unfolding I_def
    proof (intro conjI allI impI)
      fix c assume "fst c < h \<and> snd c < w \<and> ?l ! fst c ! snd c \<noteq> 0"
      then show "c \<in> foreground m" using A[of c] by simp
    next
      fix c c'
      assume "fst c < h \<and> snd c < w \<and> ?l ! fst c ! snd c \<noteq> 0 \<and> c' \<in> foreground m
                \<and> adjacent8 c' c"
      then show "?l ! fst c' ! snd c' = ?l ! fst c ! snd c" using B[of c c'] by simp
    qed
    have len: "length ?l = h" "\<forall>i < h. length (?l ! i) = w"
      using Cons.prems(2,3) by (simp_all add: set_cells_length set_cells_row_length)
    have "I (label_from m ps (Suc k) ?l)"
      using Cons.IH[OF _ len I'] Cons.prems(1) by simp
    moreover have "label_from m (p # ps) k l = label_from m ps (Suc k) ?l"
      using True by simp
    ultimately show ?thesis by simp
  qed
qed

lemma label_closed:
  assumes "rect m"
    and "fst c < fst (shape m)" "snd c < snd (shape m)" "label m ! fst c ! snd c \<noteq> 0"
  shows "c \<in> foreground m"
    and "c' \<in> foreground m \<Longrightarrow> adjacent8 c' c \<Longrightarrow> label m ! fst c' ! snd c' = label m ! fst c ! snd c"
proof -
  let ?h = "fst (shape m)" and ?w = "snd (shape m)"
  have l0: "length (zeros_like m) = ?h"
    by (simp add: zeros_like_def gmap_def shape_def)
  have l1: "\<forall>i < ?h. length (zeros_like m ! i) = ?w"
    using assms(1) by (simp add: zeros_like_def gmap_def rect_nth shape_def)
  have z: "zeros_like m ! i ! j = 0" if "i < ?h" "j < ?w" for i j
    using that assms(1) by (intro zeros_like_nth) (simp_all add: rect_nth shape_def)
  have inv: "(\<forall>c. fst c < ?h \<and> snd c < ?w \<and> label m ! fst c ! snd c \<noteq> 0 \<longrightarrow> c \<in> foreground m)
    \<and> (\<forall>c c'. fst c < ?h \<and> snd c < ?w \<and> label m ! fst c ! snd c \<noteq> 0 \<and> c' \<in> foreground m
           \<and> adjacent8 c' c \<longrightarrow> label m ! fst c' ! snd c' = label m ! fst c ! snd c)"
    unfolding label_def
    by (rule label_from_invariant[OF subset_refl l0 l1]) (simp add: z cong: conj_cong)
  show "c \<in> foreground m"
    using inv[THEN conjunct1, rule_format, of c] assms(2-) by simp
  show "c' \<in> foreground m \<Longrightarrow> adjacent8 c' c \<Longrightarrow> label m ! fst c' ! snd c' = label m ! fst c ! snd c"
    using inv[THEN conjunct2, rule_format, of c c'] assms(2-) by simp
qed

lemma shape_eqI:
  "length a = length b \<Longrightarrow> (a \<noteq> [] \<Longrightarrow> length (a ! 0) = length (b ! 0)) \<Longrightarrow> shape a = shape b"
  by (cases a; cases b) (simp_all add: shape_def)

lemma shape_zeros_like: "shape (zeros_like m) = shape m"
  by (simp add: zeros_like_def)

lemma shape_label: "shape (label m) = shape m"
proof -
  have "shape (label m) = shape (zeros_like m)"
    unfolding label_def
  proof (rule shape_eqI)
    show "length (label_from m (cells (fst (shape m)) (snd (shape m))) 0 (zeros_like m))
        = length (zeros_like m)"
      by (rule label_from_length)
  next
    assume "label_from m (cells (fst (shape m)) (snd (shape m))) 0 (zeros_like m) \<noteq> []"
    then have "0 < length (zeros_like m)"
      using label_from_length[of m "cells (fst (shape m)) (snd (shape m))" 0 "zeros_like m"]
      by (metis length_greater_0_conv)
    then show "length (label_from m (cells (fst (shape m)) (snd (shape m))) 0 (zeros_like m) ! 0)
        = length (zeros_like m ! 0)"
      by (rule label_from_row_length)
  qed
  then show ?thesis by (simp add: shape_zeros_like)
qed

lemma rect_tabulate: "rect (tabulate h w f)"
  unfolding rect_def shape_tabulate by (auto simp: list_all_iff tabulate_def)

lemma rect_erosion: "rect (binary_erosion st m)"
  by (simp add: binary_erosion_def rect_tabulate)

lemma shape_opening_1: "shape (binary_opening st 1 m) = shape m"
  unfolding opening_1 by (simp add: shape_dilation shape_erosion)

lemma shape_closing_1: "shape (binary_closing st 1 m) = shape m"
  unfolding closing_1 by (simp add: shape_dilation shape_erosion)

lemma rect_closing_1: "rect (binary_closing st 1 m)"
  unfolding closing_1 by (rule rect_erosion)

lemma shape_flag_regions: "shape (flag_regions test regs out) = shape out"
proof (rule shape_eqI)
  show "length (flag_regions test regs out) = length out"
    by (rule flag_regions_length)
next
  assume "flag_regions test regs out \<noteq> []"
  then have "0 < length out"
    using flag_regions_length[of test regs out] by (metis length_greater_0_conv)
  then show "length (flag_regions test regs out ! 0) = length (out ! 0)"
    by (rule flag_regions_row_length)
qed

lemma shape_clean_mask: "shape (clean_mask m a) = shape m"
  unfolding clean_mask_def Let_def shape_flag_regions shape_zeros_like shape_closing_1
    shape_opening_1
  by (rule refl)

lemma length_by_shape: "length g = fst (shape g)"
  by (simp add: shape_def)

lemma clean_mask_nth:
  assumes "i < fst (shape m)" "j < snd (shape m)"
  shows "clean_mask m a ! i ! j
     = (if \<exists>r \<in> set (regionprops (label (binary_closing square 1 (binary_opening square 1 m)))).
             a \<le> length r \<and> (i, j) \<in> set r
        then 1 else 0)"
proof -
  let ?c = "binary_closing square 1 (binary_opening square 1 m)"
  have s: "shape ?c = shape m"
    unfolding shape_closing_1 shape_opening_1 by (rule refl)
  have li: "i < length ?c"
    using assms(1) s by (simp add: length_by_shape)
  have lj: "j < length (?c ! i)"
    using rect_nth[OF rect_closing_1 li] assms(2) s by simp
  have zi: "i < length (zeros_like ?c)" and zj: "j < length (zeros_like ?c ! i)"
    using li lj by (simp_all add: zeros_like_def gmap_def)
  show ?thesis
    unfolding clean_mask_def Let_def flag_regions_nth[OF zi zj] zeros_like_nth[OF li lj] list_ex_iff
    by (rule refl)
qed

lemma clean_mask_row_length:
  assumes "i < fst (shape m)"
  shows "length (clean_mask m a ! i) = snd (shape m)"
proof -
  let ?c = "binary_closing square 1 (binary_opening square 1 m)"
  have s: "shape ?c = shape m"
    unfolding shape_closing_1 shape_opening_1 by (rule refl)
  have li: "i < length ?c"
    using assms s by (simp add: length_by_shape)
  have "length (clean_mask m a ! i) = length (zeros_like ?c ! i)"
    unfolding clean_mask_def Let_def using li
    by (intro flag_regions_row_length) (simp add: zeros_like_def gmap_def)
  also have "\<dots> = length (?c ! i)"
    using li by (simp add: zeros_like_def gmap_def)
  also have "\<dots> = snd (shape m)"
    using rect_nth[OF rect_closing_1 li] s by simp
  finally show ?thesis .
qed

lemma cell_at_nonzero_clean:
  "cell_at (nonzero (clean_mask m a)) i j \<longleftrightarrow>
     0 \<le> i \<and> i < int (fst (shape m)) \<and> 0 \<le> j \<and> j < int (snd (shape m))
     \<and> clean_mask m a ! nat i ! nat j \<noteq> 0"
proof -
  have "nonzero (clean_mask m a) ! nat i ! nat j \<longleftrightarrow> clean_mask m a ! nat i ! nat j \<noteq> 0"
    if "0 \<le> i" "i < int (fst (shape m))" "0 \<le> j" "j < int (snd (shape m))"
  proof -
    have a: "nat i < length (clean_mask m a)"
      using that by (simp add: length_by_shape shape_clean_mask nat_less_iff)
    have b: "nat j < length (clean_mask m a ! nat i)"
      using that by (simp add: clean_mask_row_length nat_less_iff)
    show ?thesis
      unfolding nonzero_def by (simp add: gmap_nth[OF a b])
  qed
  then show ?thesis
    unfolding cell_at_def by (auto simp: nonzero_def shape_clean_mask)
qed

lemma fold_max_ge_init: "(a::nat) \<le> fold max xs a"
proof (induction xs arbitrary: a)
  case Nil
  then show ?case by simp
next
  case (Cons x xs)
  have "a \<le> max x a" by simp
  also have "\<dots> \<le> fold max xs (max x a)" by (rule Cons.IH)
  finally show ?case by simp
qed

lemma fold_max_ge: "x \<in> set xs \<Longrightarrow> (x::nat) \<le> fold max xs a"
proof (induction xs arbitrary: a)
  case Nil
  then show ?case by simp
next
  case (Cons y ys)
  show ?case
  proof (cases "x = y")
    case True
    have "y \<le> max y a" by simp
    also have "\<dots> \<le> fold max ys (max y a)" by (rule fold_max_ge_init)
    finally show ?thesis using True by simp
  next
    case False
    then show ?thesis using Cons by simp
  qed
qed

lemma region_of_label:
  assumes "i < fst (shape l)" "j < snd (shape l)" "i < length l" "j < length (l ! i)"
    and "l ! i ! j \<noteq> 0"
  shows "filter (\<lambda>(a, b). l ! a ! b = l ! i ! j) (cells (fst (shape l)) (snd (shape l)))
           \<in> set (regionprops l)"
    and "(i, j) \<in> set (filter (\<lambda>(a, b). l ! a ! b = l ! i ! j) (cells (fst (shape l)) (snd (shape l))))"
proof -
  let ?f = "\<lambda>k. filter (\<lambda>(a, b). l ! a ! b = k) (cells (fst (shape l)) (snd (shape l)))"
  show m: "(i, j) \<in> set (?f (l ! i ! j))"
    using assms(1,2) by (simp add: cells_iff)
  have "l ! i \<in> set l"
    using assms(3) by (rule nth_mem)
  moreover have "l ! i ! j \<in> set (l ! i)"
    using assms(4) by (rule nth_mem)
  ultimately have "l ! i ! j \<in> set (concat l)"
    unfolding set_concat by (rule UN_I)
  then have "l ! i ! j \<le> fold max (concat l) 0"
    by (rule fold_max_ge)
  then have k: "l ! i ! j \<in> set [1..<Suc (fold max (concat l) 0)]"
    using assms(5) by (simp del: upt_Suc)
  have ne: "?f (l ! i ! j) \<noteq> []"
    using m by (metis empty_iff empty_set)
  have "?f (l ! i ! j) \<in> ?f ` set [1..<Suc (fold max (concat l) 0)]"
    using k by (rule imageI)
  then show "?f (l ! i ! j) \<in> set (regionprops l)"
    unfolding regionprops_def set_filter set_map using ne by blast
qed


lemma shape_opening_Suc0 [simp]: "shape (binary_opening st (Suc 0) m) = shape m"
  using shape_opening_1[of st m] by simp

lemma shape_closing_Suc0 [simp]: "shape (binary_closing st (Suc 0) m) = shape m"
  using shape_closing_1[of st m] by simp

lemma foreground_cell_at: "(i, j) \<in> foreground m \<longleftrightarrow> cell_at m (int i) (int j)"
  by (simp add: foreground_iff cell_at_def)

lemma cell_at_foreground: "cell_at m i j \<Longrightarrow> (nat i, nat j) \<in> foreground m"
  by (simp add: foreground_iff cell_at_def nat_less_iff)

lemma square_bound: "d \<in> set square \<Longrightarrow> \<bar>fst d\<bar> \<le> 1 \<and> \<bar>snd d\<bar> \<le> 1"
  by (auto simp: square_def)

lemma clean_subset_closed:
  assumes "i < fst (shape m)" "j < snd (shape m)" "clean_mask m a ! i ! j \<noteq> 0"
  shows "(i, j) \<in> foreground (binary_closing square 1 (binary_opening square 1 m))"
proof -
  let ?c = "binary_closing square 1 (binary_opening square 1 m)"
  have s: "shape ?c = shape m"
    unfolding shape_closing_1 shape_opening_1 by (rule refl)
  obtain r where r: "r \<in> set (regionprops (label ?c))" "(i, j) \<in> set r"
    using assms(3) unfolding clean_mask_nth[OF assms(1,2)] by (auto split: if_splits)
  have nz: "label ?c ! fst (i, j) ! snd (i, j) \<noteq> 0"
    using region_cell[OF r] by simp
  show ?thesis
    by (rule label_closed(1)[OF rect_closing_1 _ _ nz]) (simp_all add: s assms(1,2))
qed

lemma clean_region_closed:
  assumes "fst q < fst (shape m)" "snd q < snd (shape m)" "clean_mask m a ! fst q ! snd q \<noteq> 0"
    and "p \<in> foreground (binary_closing square 1 (binary_opening square 1 m))" "adjacent8 p q"
  shows "clean_mask m a ! fst p ! snd p = 1"
proof -
  let ?c = "binary_closing square 1 (binary_opening square 1 m)"
  let ?L = "label ?c"
  have s: "shape ?c = shape m"
    unfolding shape_closing_1 shape_opening_1 by (rule refl)
  have sL: "shape ?L = shape m"
    by (simp add: shape_label s)
  obtain r where r: "r \<in> set (regionprops ?L)" "a \<le> length r" "(fst q, snd q) \<in> set r"
    using assms(3) unfolding clean_mask_nth[OF assms(1,2)] by (auto split: if_splits)
  obtain k where k: "0 < k"
    "r = filter (\<lambda>(i, j). ?L ! i ! j = k) (cells (fst (shape ?L)) (snd (shape ?L)))"
    using r(1) by (elim regionprops_mem)
  have qk: "?L ! fst q ! snd q = k"
    using r(3) unfolding k(2) by (simp add: split_def)
  then have nz: "?L ! fst q ! snd q \<noteq> 0"
    using k(1) by simp
  have "?L ! fst p ! snd p = ?L ! fst q ! snd q"
    by (rule label_closed(2)[OF rect_closing_1 _ _ nz assms(4,5)]) (simp_all add: s assms(1,2))
  then have pk: "?L ! fst p ! snd p = k"
    using qk by simp
  have pr: "fst p < fst (shape m)" "snd p < snd (shape m)"
    using assms(4) by (simp_all add: foreground_iff s)
  have "(fst p, snd p) \<in> set r"
    unfolding k(2) using pk pr by (simp add: cells_iff shape_label split_def)
  then have "\<exists>r \<in> set (regionprops ?L). a \<le> length r \<and> (fst p, snd p) \<in> set r"
    using r(1,2) by blast
  then show ?thesis
    unfolding clean_mask_nth[OF pr] by simp
qed

lemma second_closing_subset:
  assumes "cell_at (binary_closing square 1 (binary_opening square 1 (nonzero (clean_mask m a)))) i j"
  shows "clean_mask m a ! nat i ! nat j = 1"
proof -
  let ?X = "nonzero (clean_mask m a)"
  let ?W = "binary_opening square 1 m"
  let ?c = "binary_closing square 1 ?W"
  let ?D = "binary_dilation square" and ?E = "binary_erosion square"
  have sX: "shape ?X = shape m"
    by (simp add: nonzero_def shape_clean_mask)
  have sc: "shape ?c = shape m"
    unfolding shape_closing_1 shape_opening_1 by (rule refl)
  have c_eq: "?c = ?E (?D ?W)"
    by (rule closing_1)
  have a1: "cell_at (?E (?D (?D (?E ?X)))) i j"
    using assms unfolding closing_1 opening_1 .
  then have all: "cell_at (?D (?D (?E ?X))) (i + fst d) (j + snd d)" if "d \<in> set square" for d
    using that by (simp add: cell_at_erosion_square)
  have sub1: "cell_at (?D ?X) x y" if "cell_at (?D (?D (?E ?X))) x y" for x y
    using that
    by (rule dilation_mono[rotated 2]) (simp_all add: shape_dilation shape_erosion opening_subset)
  have sub2: "cell_at ?c x y" if "cell_at ?X x y" for x y
  proof -
    from that have r: "0 \<le> x" "x < int (fst (shape m))" "0 \<le> y" "y < int (snd (shape m))"
      and nz: "clean_mask m a ! nat x ! nat y \<noteq> 0"
      by (simp_all add: cell_at_nonzero_clean)
    have "(nat x, nat y) \<in> foreground ?c"
      using r nz by (intro clean_subset_closed) (simp_all add: nat_less_iff)
    then show ?thesis
      using r by (simp add: foreground_cell_at)
  qed
  have sub3: "cell_at (?D ?c) x y" if "cell_at (?D ?X) x y" for x y
  proof (rule dilation_mono[of ?X ?c])
    show "shape ?X = shape ?c" unfolding sX sc by (rule refl)
    show "cell_at ?c i' j'" if "cell_at ?X i' j'" for i' j'
      using that by (rule sub2)
    show "cell_at (?D ?X) x y" by (rule that)
  qed
  have sub4: "cell_at (?D ?W) x y" if "cell_at (?D ?c) x y" for x y
    using that unfolding c_eq by (rule opening_subset)
  have "cell_at (?D ?W) (i + fst d) (j + snd d)" if "d \<in> set square" for d
    using all[OF that] by (intro sub4 sub3 sub1)
  then have "cell_at ?c i j"
    unfolding c_eq by (simp add: cell_at_erosion_square)
  then have pf: "(nat i, nat j) \<in> foreground ?c"
    by (rule cell_at_foreground)
  have "cell_at (?D ?X) i j"
    using all[OF origin_in_square] by (intro sub1) simp
  then obtain d where d: "d \<in> set square" "cell_at ?X (i - fst d) (j - snd d)"
    by (auto simp: cell_at_dilation)
  let ?q = "(nat (i - fst d), nat (j - snd d))"
  have qr: "0 \<le> i - fst d" "i - fst d < int (fst (shape m))"
    "0 \<le> j - snd d" "j - snd d < int (snd (shape m))"
    and qnz: "clean_mask m a ! nat (i - fst d) ! nat (j - snd d) \<noteq> 0"
    using d(2) by (simp_all add: cell_at_nonzero_clean)
  have ir: "0 \<le> i" "0 \<le> j"
    using cell_at_range[OF \<open>cell_at ?c i j\<close>] by simp_all
  have adj: "adjacent8 (nat i, nat j) ?q"
    using square_bound[OF d(1)] qr ir by (simp add: adjacent8_def)
  have "clean_mask m a ! fst (nat i, nat j) ! snd (nat i, nat j) = 1"
    by (rule clean_region_closed[of ?q m a, OF _ _ _ pf adj])
       (use qr qnz in \<open>simp_all add: nat_less_iff\<close>)
  then show ?thesis by simp
qed

text \<open>
  C6 (as amended). A second application of the cleaner never sets a cell that one
  application leaves unset, and keeps the shape: the twice-cleaned mask is contained in the
  once-cleaned mask, cell by cell. Equality can fail: closing reads the outside of the array
  as 0, so a component can leave the first pass one cell thick, and the second opening
  removes it.
\<close>

theorem clean_mask_twice_subset:
  "shape (clean_mask (nonzero (clean_mask m min_area)) min_area) = shape (clean_mask m min_area)
   \<and> (i < fst (shape m) \<and> j < snd (shape m) \<longrightarrow>
        clean_mask (nonzero (clean_mask m min_area)) min_area ! i ! j
          \<le> clean_mask m min_area ! i ! j
        \<and> clean_mask m min_area ! i ! j \<le> 1)"
proof -
  let ?X = "nonzero (clean_mask m min_area)"
  have sX: "shape ?X = shape m"
    by (simp add: nonzero_def shape_clean_mask)
  have s: "shape (clean_mask ?X min_area) = shape (clean_mask m min_area)"
    by (simp add: shape_clean_mask sX)
  have le: "clean_mask ?X min_area ! i ! j \<le> clean_mask m min_area ! i ! j"
    if r: "i < fst (shape m)" "j < snd (shape m)"
  proof (cases "clean_mask ?X min_area ! i ! j = 0")
    case True
    then show ?thesis by simp
  next
    case False
    have r': "i < fst (shape ?X)" "j < snd (shape ?X)"
      using r by (simp_all add: sX)
    have "(i, j) \<in> foreground (binary_closing square 1 (binary_opening square 1 ?X))"
      by (rule clean_subset_closed[OF r' False])
    then have "cell_at (binary_closing square 1 (binary_opening square 1 ?X)) (int i) (int j)"
      by (simp only: foreground_cell_at)
    then have "clean_mask m min_area ! nat (int i) ! nat (int j) = 1"
      by (rule second_closing_subset)
    moreover have "clean_mask ?X min_area ! i ! j \<le> 1"
      unfolding clean_mask_nth[OF r'] by simp
    ultimately show ?thesis by simp
  qed
  have one: "clean_mask m min_area ! i ! j \<le> 1" if "i < fst (shape m)" "j < snd (shape m)"
    unfolding clean_mask_nth[OF that] by simp
  show ?thesis using s le one by blast
qed

theorem clean_mask_twice_subset_witness:
  "(1::nat) < fst (shape [[True, True, True], [True, True, True], [True, True, True]])
   \<and> (1::nat) < snd (shape [[True, True, True], [True, True, True], [True, True, True]])
   \<and> clean_mask (nonzero (clean_mask [[True, True, True], [True, True, True], [True, True, True]] 1)) 1
         ! 1 ! 1
       \<le> clean_mask [[True, True, True], [True, True, True], [True, True, True]] 1 ! 1 ! 1
   \<and> clean_mask [[True, True, True], [True, True, True], [True, True, True]] 1
       = [[0, 0, 0], [0, 1, 0], [0, 0, 0]]"
proof -
  have c: "clean_mask [[True, True, True], [True, True, True], [True, True, True]] 1
       = [[0, 0, 0], [0, 1, 0], [0, 0, 0]]"
    by code_simp
  have s: "(1::nat) < fst (shape [[True, True, True], [True, True, True], [True, True, True]])"
    "(1::nat) < snd (shape [[True, True, True], [True, True, True], [True, True, True]])"
    by (simp_all add: shape_def)
  show ?thesis
    using c s clean_mask_twice_subset
      [of "[[True, True, True], [True, True, True], [True, True, True]]" 1 1 1]
    by blast
qed

text \<open>
  C6 as stated fails: on the 3x3 mask of ones with minimum area 1 the cleaner keeps the
  centre cell, and cleaning that result again gives the all-zero mask.
\<close>

theorem clean_mask_idempotent_counterexample:
  "clean_mask (nonzero (clean_mask [[True, True, True], [True, True, True], [True, True, True]] 1)) 1
     \<noteq> clean_mask [[True, True, True], [True, True, True], [True, True, True]] 1"
  by code_simp

end
